theory Spec2Isabelle
  imports Main "HOL-Library.Char_ord" "HOL-Library.List_Lexorder"
begin

section \<open>Strings\<close>

definition newline :: char where
  "newline = CHR 0x0A"

fun Join :: "string list \<Rightarrow> string \<Rightarrow> string" where
  "Join [] sep = []"
| "Join [x] sep = x"
| "Join (x # y # ys) sep = x @ sep @ Join (y # ys) sep"

text \<open>\<open>strings.Split(s, "\n")\<close>: always at least one piece.\<close>

fun SplitLines :: "string \<Rightarrow> string list" where
  "SplitLines [] = [[]]"
| "SplitLines (c # cs) =
     (if c = CHR 0x0A then [] # SplitLines cs
      else (case SplitLines cs of
              [] \<Rightarrow> [[c]]
            | l # ls \<Rightarrow> (c # l) # ls))"

text \<open>\<open>strings.ReplaceAll(text, "\r\n", "\n")\<close>.\<close>

fun ReplaceCRLF :: "string \<Rightarrow> string" where
  "ReplaceCRLF (c # d # cs) =
     (if c = CHR 0x0D \<and> d = CHR 0x0A then CHR 0x0A # ReplaceCRLF cs
      else c # ReplaceCRLF (d # cs))"
| "ReplaceCRLF cs = cs"

text \<open>
  \<open>strings.TrimSpace\<close> removes leading and trailing Unicode white space. On the UTF-8
  bytes of a string these are the six ASCII space characters and the encodings of
  U+0085, U+00A0, U+1680, U+2000..U+200A, U+2028, U+2029, U+202F, U+205F and U+3000.
\<close>

definition asciiSpace :: "char \<Rightarrow> bool" where
  "asciiSpace c \<longleftrightarrow> c \<in> {CHR 0x09, CHR 0x0A, CHR 0x0B, CHR 0x0C, CHR 0x0D, CHR 0x20}"

definition wideSpaces :: "string list" where
  "wideSpaces =
     [[CHR 0xC2, CHR 0x85], [CHR 0xC2, CHR 0xA0], [CHR 0xE1, CHR 0x9A, CHR 0x80],
      [CHR 0xE2, CHR 0x80, CHR 0x80], [CHR 0xE2, CHR 0x80, CHR 0x81],
      [CHR 0xE2, CHR 0x80, CHR 0x82], [CHR 0xE2, CHR 0x80, CHR 0x83],
      [CHR 0xE2, CHR 0x80, CHR 0x84], [CHR 0xE2, CHR 0x80, CHR 0x85],
      [CHR 0xE2, CHR 0x80, CHR 0x86], [CHR 0xE2, CHR 0x80, CHR 0x87],
      [CHR 0xE2, CHR 0x80, CHR 0x88], [CHR 0xE2, CHR 0x80, CHR 0x89],
      [CHR 0xE2, CHR 0x80, CHR 0x8A], [CHR 0xE2, CHR 0x80, CHR 0xA8],
      [CHR 0xE2, CHR 0x80, CHR 0xA9], [CHR 0xE2, CHR 0x80, CHR 0xAF],
      [CHR 0xE2, CHR 0x81, CHR 0x9F], [CHR 0xE3, CHR 0x80, CHR 0x80]]"

text \<open>The number of bytes of the white-space rune a string starts with (0 if none).\<close>

definition leadingSpace :: "string \<Rightarrow> nat" where
  "leadingSpace s =
     (case s of
        [] \<Rightarrow> 0
      | c # _ \<Rightarrow>
          if asciiSpace c then 1
          else if take 2 s \<in> set wideSpaces then 2
          else if take 3 s \<in> set wideSpaces then 3
          else 0)"

fun trimLeftFuel :: "nat \<Rightarrow> string \<Rightarrow> string" where
  "trimLeftFuel 0 s = s"
| "trimLeftFuel (Suc n) s =
     (if leadingSpace s = 0 then s else trimLeftFuel n (drop (leadingSpace s) s))"

definition TrimLeftSpace :: "string \<Rightarrow> string" where
  "TrimLeftSpace s = trimLeftFuel (length s) s"

text \<open>
  From the right the last rune is read backwards; the byte sequences above are mirrored.
  A multi-byte encoding is self-delimiting, so matching the reversed bytes at the front
  of the reversed string is the same test.
\<close>

definition trailingSpace :: "string \<Rightarrow> nat" where
  "trailingSpace r =
     (case r of
        [] \<Rightarrow> 0
      | c # _ \<Rightarrow>
          if asciiSpace c then 1
          else if rev (take 2 r) \<in> set wideSpaces then 2
          else if rev (take 3 r) \<in> set wideSpaces then 3
          else 0)"

fun trimRightFuel :: "nat \<Rightarrow> string \<Rightarrow> string" where
  "trimRightFuel 0 r = r"
| "trimRightFuel (Suc n) r =
     (if trailingSpace r = 0 then r else trimRightFuel n (drop (trailingSpace r) r))"

definition TrimSpace :: "string \<Rightarrow> string" where
  "TrimSpace s = (let l = TrimLeftSpace s in rev (trimRightFuel (length l) (rev l)))"

text \<open>
  \<open>strings.ToLower\<close>, on the ASCII letters. The engine only compares the result with
  one-letter ASCII literals (\<open>"q"\<close>, \<open>"a"\<close>, \<open>"r"\<close>, \<open>"m"\<close>, \<open>"y"\<close>, \<open>"n"\<close>), and no
  non-ASCII rune lower-cases to one of these letters, so the comparisons agree.
\<close>

definition lowerChar :: "char \<Rightarrow> char" where
  "lowerChar c =
     (if CHR ''A'' \<le> c \<and> c \<le> CHR ''Z'' then char_of (of_char c + (32::nat)) else c)"

definition ToLower :: "string \<Rightarrow> string" where
  "ToLower s = map lowerChar s"

definition TrimSuffixNewline :: "string \<Rightarrow> string" where
  "TrimSuffixNewline s = (if s \<noteq> [] \<and> last s = CHR 0x0A then butlast s else s)"

text \<open>\<open>%d\<close> of a Go int.\<close>

definition digitChar :: "nat \<Rightarrow> char" where
  "digitChar d = char_of (48 + d)"

fun showNat :: "nat \<Rightarrow> string" where
  "showNat n = (if n < 10 then [digitChar n] else showNat (n div 10) @ [digitChar (n mod 10)])"

definition showInt :: "int \<Rightarrow> string" where
  "showInt i = (if i < 0 then CHR ''-'' # showNat (nat (- i)) else showNat (nat i))"

section \<open>Floating-point probabilities\<close>

text \<open>
  A \<open>float64\<close> is a sign, and either a magnitude \<open>m * 2 ^ e\<close> with \<open>m \<ge> 0\<close> (a double
  has \<open>m < 2 ^ 53\<close>, \<open>e \<ge> -1074\<close> and a magnitude below \<open>2 ^ 1024\<close>), an infinity, or
  NaN.
\<close>

datatype float64 = Finite bool int int | Infinity bool | NaN

function bitlen :: "int \<Rightarrow> nat" where
  "bitlen n = (if n \<le> 0 then 0 else Suc (bitlen (n div 2)))"
  by pat_completeness auto
termination
  by (relation "measure nat") auto

text \<open>Round-to-nearest-even of \<open>m\<close> to a multiple of \<open>2 ^ k\<close>, as a count of such multiples.\<close>

definition roundShift :: "int \<Rightarrow> nat \<Rightarrow> int" where
  "roundShift m k =
     (let q = m div 2 ^ k; r = m mod 2 ^ k
      in if 2 * r > 2 ^ k \<or> (2 * r = 2 ^ k \<and> odd q) then q + 1 else q)"

text \<open>
  Every finite value has one representation with an odd mantissa (zero is \<open>0 * 2 ^ 0\<close>).
\<close>

function normalize :: "int \<Rightarrow> int \<Rightarrow> int \<times> int" where
  "normalize m e =
     (if m = 0 then (0, 0) else if even m then normalize (m div 2) (e + 1) else (m, e))"
  by pat_completeness auto
termination
  by (relation "measure (\<lambda>(m, e). nat \<bar>m\<bar>)") auto

text \<open>
  The IEEE 754 result of an exact magnitude \<open>m * 2 ^ e\<close>: at most 53 significant bits,
  no bit below \<open>2 ^ -1074\<close>, and an infinity from \<open>2 ^ 1024\<close> on.
\<close>

definition round64 :: "bool \<Rightarrow> int \<Rightarrow> int \<Rightarrow> float64" where
  "round64 s m e =
     (let k = max (bitlen m - 53) (nat (- 1074 - e));
          q = (if k = 0 then m else roundShift m k);
          e' = e + int k
      in if int (bitlen q) + e' > 1024 then Infinity s
         else case normalize q e' of (q', e'') \<Rightarrow> Finite s q' e'')"

text \<open>\<open>x * 100\<close>.\<close>

fun mul100 :: "float64 \<Rightarrow> float64" where
  "mul100 (Finite s m e) = round64 s (m * 100) e"
| "mul100 (Infinity s) = Infinity s"
| "mul100 NaN = NaN"

text \<open>
  \<open>%.1f\<close>: the exact binary value, rounded half-to-even to one decimal place; \<open>tenths\<close>
  is the rounded value in tenths.
\<close>

definition tenths :: "int \<Rightarrow> int \<Rightarrow> int" where
  "tenths m e = (if e \<ge> 0 then m * 10 * 2 ^ nat e else roundShift (m * 10) (nat (- e)))"

fun formatF1 :: "float64 \<Rightarrow> string" where
  "formatF1 (Finite s m e) =
     (let n = tenths m e
      in (if s then ''-'' else []) @ showNat (nat (n div 10)) @ ''.''
         @ [digitChar (nat (n mod 10))])"
| "formatF1 (Infinity s) = (if s then ''-Inf'' else ''+Inf'')"
| "formatF1 NaN = ''NaN''"

text \<open>\<open>fmt.Sprintf("%.1f%%", p*100)\<close>.\<close>

definition fmtPercent :: "float64 \<Rightarrow> string" where
  "fmtPercent p = formatF1 (mul100 p) @ ''%''"

section \<open>Domain types of the terminal client\<close>

text \<open>
  Go strings are byte sequences; they are modelled as \<open>string\<close> (a list of 8-bit
  characters). Go's \<open>int\<close> is modelled as \<open>int\<close>. The arithmetic the engine does on
  indices is \<open>+ 1\<close>. On an action index the sum goes to \<open>actionAt\<close>, which tests it
  against the length of a slice and also for \<open>index < 0\<close>: a sum that wrapped around is
  negative and is rejected by the second test, the sum that did not wrap by the first, the
  length of a slice being an \<open>int\<close> itself. On the email index \<open>hasMoreEmails\<close> and
  \<open>prepareNextEmail\<close> compare the sum with the length only, so there the wrap-around of
  the 64-bit \<open>int\<close> is written out (\<open>wrapInt\<close>).
\<close>

definition MaxInt64 :: int where
  "MaxInt64 = 2 ^ 63 - 1"

definition wrapInt :: "int \<Rightarrow> int" where
  "wrapInt x = (x + 2 ^ 63) mod 2 ^ 64 - 2 ^ 63"

datatype json =
    JNull
  | JBool bool
  | JNumber float64
  | JString string
  | JArray "json list"
  | JObject "(string \<times> json) list"

text \<open>A \<open>map[string]interface{}\<close>; \<open>None\<close> is the nil map.\<close>

type_synonym jsonMap = "(string \<times> json) list option"

record Email =
  MailID :: string
  ExternalID :: string
  ThreadID :: string
  FromName :: string
  FromEmail :: string
  To :: "string list"
  CC :: "string list"
  Subject :: string
  Body :: string

record SummaryPayload =
  Text :: string

record Action =
  ActionID :: string
  ActionMailID :: string
  Type :: string
  Status :: string
  Payload :: jsonMap
  Result :: jsonMap

datatype viewState =
    stateLoading
  | statePreviewEmail
  | stateSummary
  | stateReview
  | stateEditingPayload
  | statePromptGeneral
  | stateSubmittingAction
  | stateDone
  | stateError

section \<open>Decoding the payload editor's text\<close>

text \<open>
  \<open>json.Unmarshal(data, &parsed)\<close> with \<open>parsed\<close> a nil \<open>map[string]interface{}\<close>, as
  \<open>encoding/json\<close> documents it: the whole text is first checked against the JSON
  grammar; then the top-level value is stored. An object becomes a map whose values
  are \<open>nil\<close>, \<open>bool\<close>, \<open>float64\<close>, \<open>string\<close>, \<open>[]interface{}\<close> and
  \<open>map[string]interface{}\<close>; \<open>null\<close> sets the map to nil and is no error; any other
  top-level value is an \<open>UnmarshalTypeError\<close>, and so is a number outside the range
  of \<open>float64\<close> anywhere in the text: the decoder records the error when it converts
  the number, also when a later member with the same key replaces the value.
\<close>

datatype jsonError = SyntaxError | UnmarshalTypeError

definition jsonSpace :: "char \<Rightarrow> bool" where
  "jsonSpace c \<longleftrightarrow> c \<in> {CHR 0x20, CHR 0x09, CHR 0x0D, CHR 0x0A}"

definition skipSpace :: "string \<Rightarrow> string" where
  "skipSpace s = dropWhile jsonSpace s"

definition isDigit :: "char \<Rightarrow> bool" where
  "isDigit c \<longleftrightarrow> CHR ''0'' \<le> c \<and> c \<le> CHR ''9''"

definition digitVal :: "char \<Rightarrow> nat" where
  "digitVal c = of_char c - 48"

definition digitsVal :: "string \<Rightarrow> int" where
  "digitsVal ds = foldl (\<lambda>a c. 10 * a + int (digitVal c)) 0 ds"

definition hexVal :: "char \<Rightarrow> nat option" where
  "hexVal c =
     (if CHR ''0'' \<le> c \<and> c \<le> CHR ''9'' then Some (of_char c - 48)
      else if CHR ''a'' \<le> c \<and> c \<le> CHR ''f'' then Some (of_char c - 87)
      else if CHR ''A'' \<le> c \<and> c \<le> CHR ''F'' then Some (of_char c - 55)
      else None)"

text \<open>\<open>getu4\<close> on the four characters after \<open>\u\<close>.\<close>

definition hex4 :: "string \<Rightarrow> nat option" where
  "hex4 s =
     (case map hexVal (take 4 s) of
        [Some a, Some b, Some c, Some d] \<Rightarrow> Some (((a * 16 + b) * 16 + c) * 16 + d)
      | _ \<Rightarrow> None)"

subsection \<open>Numbers\<close>

text \<open>
  The grammar of a number: an optional minus, \<open>0\<close> or a digit sequence without leading
  zero, an optional fraction and an optional exponent. The result is the sign, the digits
  of the integer part and of the fraction, the signed exponent, and the rest of the text.
\<close>

definition scanNumber :: "string \<Rightarrow> (bool \<times> string \<times> string \<times> int \<times> string) option" where
  "scanNumber s =
     (let neg = (s \<noteq> [] \<and> hd s = CHR ''-'');
          s1 = (if neg then tl s else s)
      in if s1 = [] \<or> \<not> isDigit (hd s1) then None
         else
           let ip = (if hd s1 = CHR ''0'' then ''0'' else takeWhile isDigit s1);
               s2 = drop (length ip) s1;
               hasFrac = (s2 \<noteq> [] \<and> hd s2 = CHR ''.'');
               fp = (if hasFrac then takeWhile isDigit (tl s2) else []);
               s3 = (if hasFrac then drop (length fp) (tl s2) else s2);
               hasExp = (s3 \<noteq> [] \<and> (hd s3 = CHR ''e'' \<or> hd s3 = CHR ''E''));
               s4 = (if hasExp then tl s3 else s3);
               hasSign = (hasExp \<and> s4 \<noteq> [] \<and> (hd s4 = CHR ''+'' \<or> hd s4 = CHR ''-''));
               eneg = (hasSign \<and> hd s4 = CHR ''-'');
               s5 = (if hasSign then tl s4 else s4);
               ep = (if hasExp then takeWhile isDigit s5 else []);
               s6 = (if hasExp then drop (length ep) s5 else s3)
           in if hasFrac \<and> fp = [] then None
              else if hasExp \<and> ep = [] then None
              else Some (neg, ip, fp,
                         (if eneg then - digitsVal ep else digitsVal ep), s6))"

text \<open>
  \<open>strconv.ParseFloat(s, 64)\<close> of such a number: the double nearest to the exact decimal
  value \<open>D * 10 ^ E\<close>, ties to even; an infinity stands for its range error.
\<close>

definition decimalToFloat :: "bool \<Rightarrow> int \<Rightarrow> int \<Rightarrow> float64" where
  "decimalToFloat s D E =
     (if D = 0 then Finite s 0 0
      else if E \<ge> 0 then round64 s (D * 10 ^ nat E) 0
      else
        let T = 10 ^ nat (- E);
            k = (56 + bitlen T) - bitlen D;
            q = (D * 2 ^ k) div T;
            r = (D * 2 ^ k) mod T
        in round64 s (2 * q + (if r = 0 then 0 else 1)) (- int k - 1))"

definition numberValue :: "bool \<Rightarrow> string \<Rightarrow> string \<Rightarrow> int \<Rightarrow> float64" where
  "numberValue neg ip fp e = decimalToFloat neg (digitsVal (ip @ fp)) (e - int (length fp))"

subsection \<open>Strings\<close>

text \<open>
  The scanner's check of a string token, from the character after the opening quote: the
  raw text up to the closing quote, and the rest. Control characters and escapes other
  than \<open>\" \\ \/ \b \f \n \r \t \uXXXX\<close> are syntax errors.
\<close>

function scanString :: "string \<Rightarrow> (string \<times> string) option" where
  "scanString [] = None"
| "scanString (c # cs) =
     (if c = CHR 0x22 then Some ([], cs)
      else if c = CHR 0x5C then
        (case cs of
           [] \<Rightarrow> None
         | d # ds \<Rightarrow>
             if d \<in> set [CHR ''b'', CHR ''f'', CHR ''n'', CHR ''r'', CHR ''t'',
                          CHR 0x5C, CHR ''/'', CHR 0x22] then
               map_option (\<lambda>(t, r). (c # d # t, r)) (scanString ds)
             else if d = CHR ''u'' \<and> length ds \<ge> 4 \<and> hex4 ds \<noteq> None then
               map_option (\<lambda>(t, r). (c # d # take 4 ds @ t, r)) (scanString (drop 4 ds))
             else None)
      else if (of_char c :: nat) < 0x20 then None
      else map_option (\<lambda>(t, r). (c # t, r)) (scanString cs))"
  by pat_completeness auto
termination
  by (relation "measure length") auto

text \<open>\<open>utf8.EncodeRune\<close> for a code point that is no surrogate and at most U+10FFFF.\<close>

definition encodeRune :: "nat \<Rightarrow> string" where
  "encodeRune r =
     (if r < 0x80 then [char_of r]
      else if r < 0x800 then [char_of (0xC0 + r div 64), char_of (0x80 + r mod 64)]
      else if r < 0x10000 then
        [char_of (0xE0 + r div 4096), char_of (0x80 + (r div 64) mod 64), char_of (0x80 + r mod 64)]
      else
        [char_of (0xF0 + r div 262144), char_of (0x80 + (r div 4096) mod 64),
         char_of (0x80 + (r div 64) mod 64), char_of (0x80 + r mod 64)])"

definition replacementChar :: string where
  "replacementChar = [CHR 0xEF, CHR 0xBF, CHR 0xBD]"

text \<open>
  The length of the well-formed UTF-8 sequence a byte string starts with, as
  \<open>utf8.DecodeRune\<close> accepts it; 0 when the first byte starts none.
\<close>

definition utf8Len :: "string \<Rightarrow> nat" where
  "utf8Len s =
     (let b = map (of_char :: char \<Rightarrow> nat) (take 4 s);
          cont = (\<lambda>i lo hi. i < length b \<and> lo \<le> b ! i \<and> b ! i \<le> hi)
      in if b = [] then 0
         else let b0 = b ! 0
         in if b0 < 0x80 then 1
            else if 0xC2 \<le> b0 \<and> b0 \<le> 0xDF then (if cont 1 0x80 0xBF then 2 else 0)
            else if b0 = 0xE0 then (if cont 1 0xA0 0xBF \<and> cont 2 0x80 0xBF then 3 else 0)
            else if b0 = 0xED then (if cont 1 0x80 0x9F \<and> cont 2 0x80 0xBF then 3 else 0)
            else if 0xE1 \<le> b0 \<and> b0 \<le> 0xEF then
              (if cont 1 0x80 0xBF \<and> cont 2 0x80 0xBF then 3 else 0)
            else if b0 = 0xF0 then
              (if cont 1 0x90 0xBF \<and> cont 2 0x80 0xBF \<and> cont 3 0x80 0xBF then 4 else 0)
            else if 0xF1 \<le> b0 \<and> b0 \<le> 0xF3 then
              (if cont 1 0x80 0xBF \<and> cont 2 0x80 0xBF \<and> cont 3 0x80 0xBF then 4 else 0)
            else if b0 = 0xF4 then
              (if cont 1 0x80 0x8F \<and> cont 2 0x80 0xBF \<and> cont 3 0x80 0xBF then 4 else 0)
            else 0)"

text \<open>
  \<open>unquote\<close> of the raw text of a checked string token: escapes are replaced, a
  \<open>\u\<close> surrogate pair is combined, a lone surrogate and every byte that is not part
  of well-formed UTF-8 become U+FFFD.
\<close>

definition isSurrogate :: "nat \<Rightarrow> bool" where
  "isSurrogate r \<longleftrightarrow> 0xD800 \<le> r \<and> r < 0xE000"

definition escapeChar :: "char \<Rightarrow> char" where
  "escapeChar d =
     (if d = CHR ''b'' then CHR 0x08
      else if d = CHR ''f'' then CHR 0x0C
      else if d = CHR ''n'' then CHR 0x0A
      else if d = CHR ''r'' then CHR 0x0D
      else if d = CHR ''t'' then CHR 0x09
      else d)"

text \<open>The low surrogate a text starts with as an escape \<open>\uXXXX\<close>, if any.\<close>

definition lowSurrogateAt :: "string \<Rightarrow> nat option" where
  "lowSurrogateAt s =
     (if length s \<ge> 6 \<and> take 2 s = [CHR 0x5C, CHR ''u''] then
        (case hex4 (drop 2 s) of
           Some r \<Rightarrow> if 0xDC00 \<le> r \<and> r < 0xE000 then Some r else None
         | None \<Rightarrow> None)
      else None)"

fun unquoteFuel :: "nat \<Rightarrow> string \<Rightarrow> string" where
  "unquoteFuel 0 s = []"
| "unquoteFuel (Suc n) [] = []"
| "unquoteFuel (Suc n) (c # cs) =
     (if c = CHR 0x5C then
        (case cs of
           [] \<Rightarrow> []
         | d # ds \<Rightarrow>
             if d = CHR ''u'' then
               (case hex4 ds of
                  None \<Rightarrow> []
                | Some rr \<Rightarrow>
                    let rest = drop 4 ds
                    in if isSurrogate rr then
                         (case (if rr < 0xDC00 then lowSurrogateAt rest else None) of
                            Some r2 \<Rightarrow>
                              encodeRune (0x10000 + (rr - 0xD800) * 1024 + (r2 - 0xDC00))
                              @ unquoteFuel n (drop 6 rest)
                          | None \<Rightarrow> replacementChar @ unquoteFuel n rest)
                       else encodeRune rr @ unquoteFuel n rest)
             else escapeChar d # unquoteFuel n ds)
      else if (of_char c :: nat) < 0x80 then c # unquoteFuel n cs
      else
        let k = utf8Len (c # cs)
        in if k = 0 then replacementChar @ unquoteFuel n cs
           else take k (c # cs) @ unquoteFuel n (drop k (c # cs)))"

definition unquote :: "string \<Rightarrow> string" where
  "unquote s = unquoteFuel (length s) s"

subsection \<open>Values\<close>

definition maxNestingDepth :: nat where
  "maxNestingDepth = 10000"

text \<open>
  The parser takes the number of enclosing arrays and objects and a recursion bound;
  every call consumes a character, so a bound above the length of the text is never
  exhausted. It yields the value as the text has it: the members of an object in the
  order of the text, with every duplicate of a key.
\<close>

fun parseValue :: "nat \<Rightarrow> nat \<Rightarrow> string \<Rightarrow> (json \<times> string) option"
  and parseElems :: "nat \<Rightarrow> nat \<Rightarrow> json list \<Rightarrow> string \<Rightarrow> (json \<times> string) option"
  and parseMembers :: "nat \<Rightarrow> nat \<Rightarrow> (string \<times> json) list \<Rightarrow> string \<Rightarrow> (json \<times> string) option"
where
  "parseValue 0 d s = None"
| "parseValue (Suc f) d s =
     (let t = skipSpace s
      in if t = [] then None
         else if hd t = CHR ''{'' then
           (if d \<ge> maxNestingDepth then None
            else let u = skipSpace (tl t)
                 in if u \<noteq> [] \<and> hd u = CHR ''}'' then Some (JObject [], tl u)
                    else parseMembers f (Suc d) [] u)
         else if hd t = CHR ''['' then
           (if d \<ge> maxNestingDepth then None
            else let u = skipSpace (tl t)
                 in if u \<noteq> [] \<and> hd u = CHR '']'' then Some (JArray [], tl u)
                    else parseElems f (Suc d) [] u)
         else if hd t = CHR 0x22 then
           (case scanString (tl t) of
              None \<Rightarrow> None
            | Some (raw, r) \<Rightarrow> Some (JString (unquote raw), r))
         else if hd t = CHR ''-'' \<or> isDigit (hd t) then
           (case scanNumber t of
              None \<Rightarrow> None
            | Some (neg, ip, fp, e, r) \<Rightarrow> Some (JNumber (numberValue neg ip fp e), r))
         else if take 4 t = ''true'' then Some (JBool True, drop 4 t)
         else if take 5 t = ''false'' then Some (JBool False, drop 5 t)
         else if take 4 t = ''null'' then Some (JNull, drop 4 t)
         else None)"
| "parseElems 0 d acc s = None"
| "parseElems (Suc f) d acc s =
     (case parseValue f d s of
        None \<Rightarrow> None
      | Some (v, r) \<Rightarrow>
          let t = skipSpace r
          in if t = [] then None
             else if hd t = CHR '','' then parseElems f d (acc @ [v]) (tl t)
             else if hd t = CHR '']'' then Some (JArray (acc @ [v]), tl t)
             else None)"
| "parseMembers 0 d acc s = None"
| "parseMembers (Suc f) d acc s =
     (let t = skipSpace s
      in if t = [] \<or> hd t \<noteq> CHR 0x22 then None
         else
           (case scanString (tl t) of
              None \<Rightarrow> None
            | Some (raw, r) \<Rightarrow>
                let u = skipSpace r
                in if u = [] \<or> hd u \<noteq> CHR '':'' then None
                   else
                     (case parseValue f d (tl u) of
                        None \<Rightarrow> None
                      | Some (v, r') \<Rightarrow>
                          let w = skipSpace r'
                          in if w = [] then None
                             else if hd w = CHR '','' then
                               parseMembers f d (acc @ [(unquote raw, v)]) (tl w)
                             else if hd w = CHR ''}'' then
                               Some (JObject (acc @ [(unquote raw, v)]), tl w)
                             else None)))"

text \<open>\<open>checkValid\<close> and the decoded value: one value, then only white space.\<close>

definition parseJSON :: "string \<Rightarrow> json option" where
  "parseJSON s =
     (case parseValue (Suc (length s)) 0 s of
        None \<Rightarrow> None
      | Some (v, r) \<Rightarrow> if skipSpace r = [] then Some v else None)"

text \<open>A number outside the range of \<open>float64\<close> anywhere in the text's value.\<close>

fun overflows :: "json \<Rightarrow> bool" where
  "overflows (JNumber x) = (case x of Infinity _ \<Rightarrow> True | _ \<Rightarrow> False)"
| "overflows (JArray vs) = (\<exists>v \<in> set vs. overflows v)"
| "overflows (JObject kvs) = (\<exists>v \<in> set (map snd kvs). overflows v)"
| "overflows _ = False"

text \<open>
  Storing the members of an object into a map, in the order of the text: assignment to
  a key that is already there replaces its value.
\<close>

fun mapAssign :: "string \<Rightarrow> 'v \<Rightarrow> (string \<times> 'v) list \<Rightarrow> (string \<times> 'v) list" where
  "mapAssign k v [] = [(k, v)]"
| "mapAssign k v ((k', v') # kvs) =
     (if k = k' then (k, v) # kvs else (k', v') # mapAssign k v kvs)"

definition assignAll :: "(string \<times> 'v) list \<Rightarrow> (string \<times> 'v) list" where
  "assignAll kvs = foldl (\<lambda>acc kv. mapAssign (fst kv) (snd kv) acc) [] kvs"

fun valueInterface :: "json \<Rightarrow> json" where
  "valueInterface (JArray vs) = JArray (map valueInterface vs)"
| "valueInterface (JObject kvs) =
     JObject (assignAll (map (\<lambda>(k, v). (k, valueInterface v)) kvs))"
| "valueInterface v = v"

definition objectInterface :: "(string \<times> json) list \<Rightarrow> (string \<times> json) list" where
  "objectInterface kvs = assignAll (map (\<lambda>(k, v). (k, valueInterface v)) kvs)"

definition Unmarshal :: "string \<Rightarrow> jsonError + jsonMap" where
  "Unmarshal data =
     (case parseJSON data of
        None \<Rightarrow> Inl SyntaxError
      | Some JNull \<Rightarrow> Inr None
      | Some (JObject kvs) \<Rightarrow>
          if overflows (JObject kvs) then Inl UnmarshalTypeError
          else Inr (Some (objectInterface kvs))
      | Some _ \<Rightarrow> Inl UnmarshalTypeError)"

section \<open>Messages, commands and the engine's state\<close>

record ClassificationPayload =
  Probabilities :: "(string \<times> float64) list option"
  Decisions :: "(string \<times> bool) list option"

record NewEmailResponse =
  RespMailID :: string
  Summary :: "SummaryPayload option"
  ProposedActions :: "Action list"
  Classification :: ClassificationPayload

datatype keyType =
    KeyCtrlC | KeyEnter | KeyRunes | KeyCtrlS | KeyEsc
  | KeyUp | KeyDown | KeyPgUp | KeyPgDown | KeyHome | KeyEnd
  | KeyOther nat

record KeyMsg =
  KeyType :: keyType
  Runes :: string

text \<open>
  A Go \<open>error\<close> is \<open>None\<close> for nil and \<open>Some text\<close> for an error whose \<open>Error()\<close> is
  \<open>text\<close>. A \<open>*NewEmailResponse\<close> is an option.
\<close>

datatype msg =
    WindowSizeMsg int int
  | KeyPress KeyMsg
  | newEmailMsg Email "NewEmailResponse option" "string option"
  | actionUpdatedMsg int Action "string option"
  | spinnerTickMsg
  | otherMsg

text \<open>
  A \<open>tea.Cmd\<close>: the quit command, the spinner's and the text area's own commands, the
  four gateway commands with the arguments their closures capture, and batches. The nil
  command is \<open>None\<close>.
\<close>

datatype cmd =
    Quit
  | spinnerTick
  | textareaCmd nat
  | loadSampleEmailCmd Email
  | approveActionCmd int string
  | rejectActionCmd int string
  | modifyActionCmd int string jsonMap bool
  | Batch "cmd list"

record textarea =
  edValue :: string
  edWidth :: int
  edHeight :: int
  edFocused :: bool

record viewport =
  vpWidth :: int
  vpHeight :: int
  vpContent :: string
  YOffset :: int

text \<open>
  The fields of \<open>appModel\<close>, without the gateway client (a fixed address) and the
  spinner (an animation frame): neither is read by a transition.
\<close>

record appModel =
  view :: viewState
  email :: Email
  emails :: "Email list"
  currentEmail :: int
  response :: "NewEmailResponse option"
  currentAction :: int
  status :: string
  editor :: textarea
  editorErr :: string
  pending :: jsonMap
  err :: "string option"
  viewport :: viewport

text \<open>
  What the engine takes from its libraries, as parameters: the five lipgloss styles,
  \<open>json.MarshalIndent\<close> (\<open>Inl\<close> its error text), the text of an \<open>encoding/json\<close>
  decoding error, the text area's own handling of a key (its new state and its command,
  if any), and the viewport's scrolling.
\<close>

record lib =
  titleStyle :: "string \<Rightarrow> string"
  labelStyle :: "string \<Rightarrow> string"
  successStyle :: "string \<Rightarrow> string"
  errorTextStyle :: "string \<Rightarrow> string"
  subtleTextStyle :: "string \<Rightarrow> string"
  marshalIndent :: "jsonMap \<Rightarrow> string + string"
  jsonErrorText :: "string \<Rightarrow> jsonError \<Rightarrow> string"
  textareaUpdate :: "KeyMsg \<Rightarrow> textarea \<Rightarrow> textarea \<times> nat option"
  viewportScroll :: "keyType \<Rightarrow> viewport \<Rightarrow> viewport"

definition previewInstruction :: string where
  "previewInstruction = ''Press Enter to submit the email to the agents. Press 'q' to quit.''"

section \<open>Content renderer\<close>

definition labelledLine :: "lib \<Rightarrow> string \<Rightarrow> string \<Rightarrow> string" where
  "labelledLine L label v = labelStyle L label @ '' '' @ v"

definition formatSender :: "Email \<Rightarrow> string" where
  "formatSender e =
     (let name = TrimSpace (FromName e)
      in if name \<noteq> [] then name @ '' <'' @ FromEmail e @ ''>'' else FromEmail e)"

definition formatAddressList :: "string list \<Rightarrow> string" where
  "formatAddressList addresses = (if length addresses = 0 then [] else Join addresses '', '')"

definition indentMultiline :: "string \<Rightarrow> string \<Rightarrow> string" where
  "indentMultiline text indent =
     (if text = [] then indent
      else Join (map (\<lambda>line. if line = [] then indent else indent @ line)
                   (SplitLines (ReplaceCRLF text))) [newline])"

definition renderEmailPreview :: "lib \<Rightarrow> Email \<Rightarrow> string" where
  "renderEmailPreview L e =
     titleStyle L ''Email Ready to Submit''
     @ [newline, newline]
     @ labelledLine L ''Mail ID:'' (MailID e)
     @ (let subject = TrimSpace (Subject e)
        in if subject \<noteq> [] then [newline] @ labelledLine L ''Subject:'' subject else [])
     @ [newline] @ labelledLine L ''From:'' (formatSender e)
     @ (let to = formatAddressList (To e)
        in if to \<noteq> [] then [newline] @ labelledLine L ''To:'' to else [])
     @ (let cc = formatAddressList (CC e)
        in if cc \<noteq> [] then [newline] @ labelledLine L ''CC:'' cc else [])
     @ [newline, newline] @ labelStyle L ''Body:'' @ [newline]
     @ indentMultiline (Body e) ''  ''"

text \<open>
  A Go map is kept as an association list read through \<open>map_of\<close>; \<open>mapsKeys\<close> ranges
  over the map, so it yields every key once, in the order the range happens to take.
\<close>

definition mapsKeys :: "(string \<times> 'v) list \<Rightarrow> string list" where
  "mapsKeys m = remdups (map fst m)"

text \<open>\<open>slices.Sort\<close> on strings: byte-wise lexicographic order.\<close>

definition slicesSort :: "string list \<Rightarrow> string list" where
  "slicesSort keys = sort keys"

text \<open>
  \<open>c.Probabilities[key]\<close> for a key of the map, and \<open>c.Decisions[key]\<close>, which is false
  for a missing key and for a nil map.
\<close>

definition probabilityOf :: "(string \<times> float64) list \<Rightarrow> string \<Rightarrow> float64" where
  "probabilityOf ps key = (case map_of ps key of Some p \<Rightarrow> p | None \<Rightarrow> Finite False 0 0)"

definition decisionOf :: "(string \<times> bool) list option \<Rightarrow> string \<Rightarrow> bool" where
  "decisionOf ds key =
     (case ds of
        None \<Rightarrow> False
      | Some d \<Rightarrow> (case map_of d key of Some b \<Rightarrow> b | None \<Rightarrow> False))"

definition classificationLine :: "ClassificationPayload \<Rightarrow> (string \<times> float64) list \<Rightarrow> string \<Rightarrow> string" where
  "classificationLine c ps key =
     (let percent = fmtPercent (probabilityOf ps key);
          mark = (if Decisions c \<noteq> None \<and> decisionOf (Decisions c) key then '' (selected)'' else [])
      in ''- '' @ key @ '': '' @ percent @ mark)"

text \<open>The loop of \<open>renderClassification\<close>, appending one line per key.\<close>

fun classificationLines ::
  "ClassificationPayload \<Rightarrow> (string \<times> float64) list \<Rightarrow> string list \<Rightarrow> string list \<Rightarrow> string list" where
  "classificationLines c ps lines [] = lines"
| "classificationLines c ps lines (key # keys) =
     classificationLines c ps (lines @ [classificationLine c ps key]) keys"

definition renderClassification :: "ClassificationPayload \<Rightarrow> string" where
  "renderClassification c =
     (case Probabilities c of
        None \<Rightarrow> ''No classification data.''
      | Some ps \<Rightarrow>
          if length (mapsKeys ps) = 0 then ''No classification data.''
          else Join (classificationLines c ps [] (slicesSort (mapsKeys ps))) [newline])"

definition toPrettyJSON :: "lib \<Rightarrow> jsonMap \<Rightarrow> string + string" where
  "toPrettyJSON L v = marshalIndent L v"

definition jsonBlock :: "lib \<Rightarrow> string \<Rightarrow> jsonMap \<Rightarrow> string" where
  "jsonBlock L title v =
     (let text = (case toPrettyJSON L v of
                    Inl e \<Rightarrow> ''<unable to render '' @ ToLower title @ '': '' @ e @ ''>''
                  | Inr t \<Rightarrow> t)
      in [newline] @ labelStyle L (title @ '':'') @ [newline] @ text)"

section \<open>Widgets\<close>

text \<open>
  The viewport keeps the text handed to \<open>SetContent\<close> and a scroll offset; the text area
  keeps its text, the dimensions asked for, and its focus. Scrolling by a key and the
  text area's reaction to a key are the library's (see \<open>lib\<close>).
\<close>

definition SetContent :: "string \<Rightarrow> viewport \<Rightarrow> viewport" where
  "SetContent s vp = vp\<lparr>vpContent := s\<rparr>"

definition GotoTop :: "viewport \<Rightarrow> viewport" where
  "GotoTop vp = vp\<lparr>YOffset := 0\<rparr>"

definition SetWidth :: "int \<Rightarrow> textarea \<Rightarrow> textarea" where
  "SetWidth w ed = ed\<lparr>edWidth := w\<rparr>"

definition SetHeight :: "int \<Rightarrow> textarea \<Rightarrow> textarea" where
  "SetHeight h ed = ed\<lparr>edHeight := h\<rparr>"

definition SetValue :: "string \<Rightarrow> textarea \<Rightarrow> textarea" where
  "SetValue s ed = ed\<lparr>edValue := s\<rparr>"

definition Focus :: "textarea \<Rightarrow> textarea" where
  "Focus ed = ed\<lparr>edFocused := True\<rparr>"

definition maxInt :: "int \<Rightarrow> int \<Rightarrow> int" where
  "maxInt a b = (if a > b then a else b)"

section \<open>Screen engine\<close>

definition hasActions :: "appModel \<Rightarrow> bool" where
  "hasActions m =
     (case response m of None \<Rightarrow> False | Some r \<Rightarrow> length (ProposedActions r) > 0)"

text \<open>\<open>actionAt\<close> yields a pointer into the slice, or nil; the read is \<open>actionAt\<close>, the
  write through the pointer is \<open>storeAction\<close>.\<close>

definition actionAt :: "appModel \<Rightarrow> int \<Rightarrow> Action option" where
  "actionAt m index =
     (case response m of
        None \<Rightarrow> None
      | Some r \<Rightarrow>
          if index < 0 \<or> index \<ge> int (length (ProposedActions r)) then None
          else Some (ProposedActions r ! nat index))"

definition storeAction :: "int \<Rightarrow> Action \<Rightarrow> appModel \<Rightarrow> appModel" where
  "storeAction index a m =
     (case response m of
        None \<Rightarrow> m
      | Some r \<Rightarrow>
          m\<lparr>response := Some (r\<lparr>ProposedActions := (ProposedActions r)[nat index := a]\<rparr>)\<rparr>)"

definition currentActionRef :: "appModel \<Rightarrow> Action option" where
  "currentActionRef m = actionAt m (currentAction m)"

definition currentActionID :: "appModel \<Rightarrow> string" where
  "currentActionID m = (case currentActionRef m of Some a \<Rightarrow> ActionID a | None \<Rightarrow> [])"

definition hasMoreEmails :: "appModel \<Rightarrow> bool" where
  "hasMoreEmails m \<longleftrightarrow> wrapInt (currentEmail m + 1) < int (length (emails m))"

definition viewUsesViewport :: "appModel \<Rightarrow> bool" where
  "viewUsesViewport m =
     (case view m of
        statePreviewEmail \<Rightarrow> True
      | stateSummary \<Rightarrow> True
      | stateReview \<Rightarrow> True
      | statePromptGeneral \<Rightarrow> True
      | stateDone \<Rightarrow> True
      | stateError \<Rightarrow> True
      | _ \<Rightarrow> False)"

subsection \<open>What each screen shows\<close>

definition renderPreviewEmailContent :: "lib \<Rightarrow> appModel \<Rightarrow> string" where
  "renderPreviewEmailContent L m =
     (let content = renderEmailPreview L (email m);
          instruction = (if TrimSpace (status m) = [] then previewInstruction
                         else TrimSpace (status m))
      in content @ [newline, newline] @ subtleTextStyle L instruction)"

definition renderSummaryContent :: "lib \<Rightarrow> appModel \<Rightarrow> string" where
  "renderSummaryContent L m =
     (case response m of
        None \<Rightarrow> []
      | Some r \<Rightarrow>
          let from = formatSender (email m);
              summary = (case Summary r of
                           None \<Rightarrow> []
                         | Some s \<Rightarrow>
                             if TrimSpace (Text s) \<noteq> [] then
                               [newline] @ labelStyle L ''Summary:'' @ [newline] @ Text s
                             else [])
          in titleStyle L ''Email Summary''
             @ [newline, newline] @ labelledLine L ''Mail ID:'' (RespMailID r)
             @ [newline] @ labelledLine L ''Subject:'' (Subject (email m))
             @ [newline] @ labelledLine L ''From:'' from
             @ [newline] @ labelledLine L ''To:'' (Join (To (email m)) '', '')
             @ summary
             @ [newline, newline] @ labelStyle L ''Classification:''
             @ [newline] @ renderClassification (Classification r)
             @ [newline]
             @ subtleTextStyle L
                 ''Press Enter to review proposed actions. Use arrow keys to scroll.'')"

definition renderCurrentActionContent :: "lib \<Rightarrow> appModel \<Rightarrow> string" where
  "renderCurrentActionContent L m =
     (case currentActionRef m of
        None \<Rightarrow> []
      | Some action \<Rightarrow>
          let result = (if Result action \<noteq> None then jsonBlock L ''Result'' (Result action)
                        else []);
              st = (if status m \<noteq> [] then [newline, newline] @ subtleTextStyle L (status m)
                    else [])
          in titleStyle L ''Proposed Action''
             @ '' ('' @ showInt (currentAction m + 1) @ ''/''
             @ showInt (case response m of None \<Rightarrow> 0 | Some r \<Rightarrow> int (length (ProposedActions r)))
             @ '')''
             @ [newline, newline] @ labelledLine L ''Action ID:'' (ActionID action)
             @ [newline] @ labelledLine L ''Type:'' (Type action)
             @ [newline] @ labelledLine L ''Status:'' (Status action)
             @ jsonBlock L ''Payload'' (Payload action)
             @ result
             @ st
             @ [newline, newline] @ ''Choose: [a]pprove  [m]odify  [r]eject  [q]uit''
             @ [newline] @ ''Use arrow keys or PgUp/PgDn to scroll.'')"

definition renderPromptGeneralContent :: "lib \<Rightarrow> appModel \<Rightarrow> string" where
  "renderPromptGeneralContent L m =
     titleStyle L ''Preference Update''
     @ [newline, newline] @ status m
     @ [newline, newline]
     @ ''Press 'y' to apply to general preferences, 'n' for per-recipient, or Enter for the default (No).''"

definition renderFinalStatusContent :: "lib \<Rightarrow> appModel \<Rightarrow> string" where
  "renderFinalStatusContent L m =
     (let b0 = titleStyle L ''Review Complete'' @ [newline, newline];
          b1 = (case response m of
                  None \<Rightarrow> b0
                | Some r \<Rightarrow>
                    b0
                    @ concat (map (\<lambda>action. ''- '' @ ActionID action @ '': '' @ Status action
                                             @ [newline]) (ProposedActions r))
                    @ (if length (ProposedActions r) > 0 then [newline] else []));
          b2 = (if status m \<noteq> [] then b1 @ status m @ [newline] else b1);
          instruction =
            (if hasMoreEmails m then
               ''Press Enter to load the next email, or 'q' to exit. Use arrow keys to review the list.''
             else ''Press Enter or 'q' to exit. Use arrow keys to review the list.'')
      in TrimSuffixNewline (b2 @ subtleTextStyle L instruction))"

definition renderErrorContent :: "lib \<Rightarrow> appModel \<Rightarrow> string" where
  "renderErrorContent L m =
     (let message = (case err m of
                       None \<Rightarrow> []
                     | Some e \<Rightarrow> errorTextStyle L e @ [newline, newline])
      in titleStyle L ''Error'' @ [newline, newline] @ message
         @ subtleTextStyle L ''Press Enter to exit.'')"

definition currentViewContent :: "lib \<Rightarrow> appModel \<Rightarrow> string" where
  "currentViewContent L m =
     (case view m of
        statePreviewEmail \<Rightarrow> renderPreviewEmailContent L m
      | stateSummary \<Rightarrow> renderSummaryContent L m
      | stateReview \<Rightarrow> renderCurrentActionContent L m
      | statePromptGeneral \<Rightarrow> renderPromptGeneralContent L m
      | stateDone \<Rightarrow> renderFinalStatusContent L m
      | stateError \<Rightarrow> renderErrorContent L m
      | _ \<Rightarrow> [])"

definition refreshViewport :: "lib \<Rightarrow> bool \<Rightarrow> appModel \<Rightarrow> appModel" where
  "refreshViewport L reset m =
     (if \<not> viewUsesViewport m then m
      else
        let vp = SetContent (currentViewContent L m) (viewport m)
        in m\<lparr>viewport := (if reset then GotoTop vp else vp)\<rparr>)"

definition setView :: "lib \<Rightarrow> viewState \<Rightarrow> string \<Rightarrow> appModel \<Rightarrow> appModel" where
  "setView L v st m = refreshViewport L True (m\<lparr>view := v, status := st\<rparr>)"

definition fail :: "lib \<Rightarrow> string \<Rightarrow> appModel \<Rightarrow> appModel \<times> cmd option" where
  "fail L e m = (setView L stateError [] (m\<lparr>err := Some e\<rparr>), None)"

subsection \<open>Loading an email\<close>

definition prepareEmail :: "lib \<Rightarrow> int \<Rightarrow> appModel \<Rightarrow> appModel" where
  "prepareEmail L index m =
     (if index < 0 \<or> index \<ge> int (length (emails m)) then m
      else
        setView L statePreviewEmail previewInstruction
          (m\<lparr>currentEmail := index,
             email := emails m ! nat index,
             response := None,
             pending := None,
             currentAction := 0,
             editorErr := [],
             err := None\<rparr>))"

definition prepareNextEmail :: "lib \<Rightarrow> appModel \<Rightarrow> appModel" where
  "prepareNextEmail L m =
     (let next = wrapInt (currentEmail m + 1)
      in if next \<ge> int (length (emails m)) then m else prepareEmail L next m)"

text \<open>
  \<open>newAppModel\<close> and \<open>Init\<close>. The sample list \<open>buildSampleEmails()\<close> and the fallback
  email \<open>buildSampleEmail()\<close> (whose identifier is taken from the clock) are parameters.
\<close>

definition zeroEmail :: Email where
  "zeroEmail = \<lparr>MailID = [], ExternalID = [], ThreadID = [], FromName = [], FromEmail = [],
                 To = [], CC = [], Subject = [], Body = []\<rparr>"

definition newAppModel :: appModel where
  "newAppModel =
     \<lparr>view = stateLoading, email = zeroEmail, emails = [], currentEmail = 0,
      response = None, currentAction = 0, status = [],
      editor = \<lparr>edValue = [], edWidth = 80, edHeight = 12, edFocused = False\<rparr>,
      editorErr = [], pending = None, err = None,
      viewport = \<lparr>vpWidth = 80, vpHeight = 20, vpContent = [], YOffset = 0\<rparr>\<rparr>"

definition Init :: "lib \<Rightarrow> Email list \<Rightarrow> Email \<Rightarrow> appModel \<Rightarrow> appModel" where
  "Init L samples fallback m =
     (let es = (if length samples = 0 then [fallback] else samples)
      in prepareEmail L 0 (m\<lparr>emails := es\<rparr>))"

subsection \<open>Resize\<close>

definition handleWindowSize :: "lib \<Rightarrow> int \<Rightarrow> int \<Rightarrow> appModel \<Rightarrow> appModel" where
  "handleWindowSize L w h m =
     (if w \<le> 0 \<or> h \<le> 0 then m
      else
        let vp = (viewport m)\<lparr>vpWidth := w, vpHeight := maxInt 5 (h - 2)\<rparr>;
            ed = SetHeight (maxInt 5 (vpHeight vp - 2)) (SetWidth (maxInt 20 (w - 4)) (editor m))
        in refreshViewport L True (m\<lparr>viewport := vp, editor := ed\<rparr>))"

subsection \<open>Keys\<close>

definition handleViewportScroll :: "lib \<Rightarrow> KeyMsg \<Rightarrow> appModel \<Rightarrow> bool \<times> appModel" where
  "handleViewportScroll L k m =
     (if KeyType k \<in> {KeyUp, KeyDown, KeyPgUp, KeyPgDown, KeyHome, KeyEnd} then
        (True, m\<lparr>viewport := viewportScroll L (KeyType k) (viewport m)\<rparr>)
      else (False, m))"

definition beginEmailSubmission :: "lib \<Rightarrow> appModel \<Rightarrow> appModel \<times> cmd option" where
  "beginEmailSubmission L m =
     (setView L stateLoading ''Submitting email to the agents...'' m,
      Some (Batch [spinnerTick, loadSampleEmailCmd (email m)]))"

definition beginActionUpdate :: "lib \<Rightarrow> string \<Rightarrow> cmd \<Rightarrow> appModel \<Rightarrow> appModel \<times> cmd option" where
  "beginActionUpdate L message c m =
     (setView L stateSubmittingAction message m, Some (Batch [spinnerTick, c]))"

definition submitModifiedAction :: "lib \<Rightarrow> bool \<Rightarrow> appModel \<Rightarrow> appModel \<times> cmd option" where
  "submitModifiedAction L apply m =
     beginActionUpdate L ''Submitting modified action...''
       (modifyActionCmd (currentAction m) (currentActionID m) (pending m) apply) m"

definition enterPayloadEditor :: "lib \<Rightarrow> appModel \<Rightarrow> appModel \<times> cmd option" where
  "enterPayloadEditor L m =
     (case currentActionRef m of
        None \<Rightarrow> (m, None)
      | Some action \<Rightarrow>
          (case toPrettyJSON L (Payload action) of
             Inl e \<Rightarrow> fail L (''format payload: '' @ e) m
           | Inr pretty \<Rightarrow>
               (m\<lparr>editor := Focus (SetValue pretty (editor m)),
                  editorErr := [],
                  view := stateEditingPayload\<rparr>, None)))"

definition handlePreviewKey :: "lib \<Rightarrow> KeyMsg \<Rightarrow> appModel \<Rightarrow> appModel \<times> cmd option" where
  "handlePreviewKey L k m =
     (case KeyType k of
        KeyEnter \<Rightarrow> beginEmailSubmission L m
      | KeyRunes \<Rightarrow> if ToLower (Runes k) = ''q'' then (m, Some Quit) else (m, None)
      | _ \<Rightarrow> (m, None))"

definition handleReviewKey :: "lib \<Rightarrow> KeyMsg \<Rightarrow> appModel \<Rightarrow> appModel \<times> cmd option" where
  "handleReviewKey L k m =
     (case currentActionRef m of
        None \<Rightarrow> (m, None)
      | Some action \<Rightarrow>
          if KeyType k \<noteq> KeyRunes then (m, None)
          else
            let id = ActionID action; choice = ToLower (Runes k)
            in if choice = ''a'' then
                 beginActionUpdate L ''Approving action...''
                   (approveActionCmd (currentAction m) id) m
               else if choice = ''r'' then
                 beginActionUpdate L ''Rejecting action...''
                   (rejectActionCmd (currentAction m) id) m
               else if choice = ''m'' then enterPayloadEditor L m
               else if choice = ''q'' then (m, Some Quit)
               else (m, None))"

definition handlePayloadKey :: "lib \<Rightarrow> KeyMsg \<Rightarrow> appModel \<Rightarrow> appModel \<times> cmd option" where
  "handlePayloadKey L k m =
     (let (ed, c) = textareaUpdate L k (editor m);
          m1 = m\<lparr>editor := ed\<rparr>;
          cmd = map_option textareaCmd c
      in case KeyType k of
           KeyCtrlS \<Rightarrow>
             let raw = TrimSpace (edValue (editor m1))
             in if raw = [] then (m1\<lparr>editorErr := ''Payload cannot be empty.''\<rparr>, cmd)
                else
                  (case Unmarshal raw of
                     Inl e \<Rightarrow>
                       (m1\<lparr>editorErr := ''Invalid JSON: '' @ jsonErrorText L raw e\<rparr>, cmd)
                   | Inr parsed \<Rightarrow>
                       (setView L statePromptGeneral
                          ''Apply extracted preferences to general profile? (y/N)''
                          (m1\<lparr>pending := parsed, editorErr := []\<rparr>), cmd))
         | KeyEsc \<Rightarrow>
             (setView L stateReview (subtleTextStyle L ''Modification cancelled.'') m1, cmd)
         | _ \<Rightarrow> (m1, cmd))"

definition handlePromptKey :: "lib \<Rightarrow> KeyMsg \<Rightarrow> appModel \<Rightarrow> appModel \<times> cmd option" where
  "handlePromptKey L k m =
     (case KeyType k of
        KeyRunes \<Rightarrow>
          let choice = ToLower (Runes k)
          in if choice = ''y'' then submitModifiedAction L True m
             else if choice = ''n'' then submitModifiedAction L False m
             else (m, None)
      | KeyEnter \<Rightarrow> submitModifiedAction L False m
      | _ \<Rightarrow> (m, None))"

definition handleKeyMsg :: "lib \<Rightarrow> KeyMsg \<Rightarrow> appModel \<Rightarrow> appModel \<times> cmd option" where
  "handleKeyMsg L k m =
     (if KeyType k = KeyCtrlC then (m, Some Quit)
      else if viewUsesViewport m \<and> fst (handleViewportScroll L k m) then
        (snd (handleViewportScroll L k m), None)
      else
        (case view m of
           statePreviewEmail \<Rightarrow> handlePreviewKey L k m
         | stateSummary \<Rightarrow>
             if KeyType k = KeyEnter then (setView L stateReview [] (m\<lparr>currentAction := 0\<rparr>), None)
             else (m, None)
         | stateReview \<Rightarrow> handleReviewKey L k m
         | stateEditingPayload \<Rightarrow> handlePayloadKey L k m
         | statePromptGeneral \<Rightarrow> handlePromptKey L k m
         | stateDone \<Rightarrow>
             (case KeyType k of
                KeyEnter \<Rightarrow>
                  if hasMoreEmails m then (prepareNextEmail L m, None) else (m, Some Quit)
              | KeyRunes \<Rightarrow> if ToLower (Runes k) = ''q'' then (m, Some Quit) else (m, None)
              | _ \<Rightarrow> (m, None))
         | stateError \<Rightarrow> if KeyType k = KeyEnter then (m, Some Quit) else (m, None)
         | _ \<Rightarrow> (m, None)))"

subsection \<open>Update\<close>

definition Update :: "lib \<Rightarrow> msg \<Rightarrow> appModel \<Rightarrow> appModel \<times> cmd option" where
  "Update L ev m =
     (case ev of
        WindowSizeMsg w h \<Rightarrow> (handleWindowSize L w h m, None)
      | KeyPress k \<Rightarrow> handleKeyMsg L k m
      | newEmailMsg e resp er \<Rightarrow>
          (case er of
             Some t \<Rightarrow> fail L t m
           | None \<Rightarrow>
               let m1 = m\<lparr>email := e, response := resp\<rparr>
               in if hasActions m1 then (setView L stateSummary [] m1, None)
                  else (setView L stateDone ''No actions to review.'' m1, None))
      | actionUpdatedMsg index a er \<Rightarrow>
          (case er of
             Some t \<Rightarrow> fail L t m
           | None \<Rightarrow>
               let m1 = (if actionAt m index \<noteq> None then storeAction index a m else m)
               in if actionAt m1 (index + 1) \<noteq> None then
                    (setView L stateReview (successStyle L ''Action updated successfully.'')
                       (m1\<lparr>currentAction := index + 1\<rparr>), Some spinnerTick)
                  else
                    (setView L stateDone (successStyle L ''All actions reviewed.'') m1,
                     Some spinnerTick))
      | spinnerTickMsg \<Rightarrow> (m, Some spinnerTick)
      | otherMsg \<Rightarrow> (m, None))"

section \<open>Backend gateway\<close>

text \<open>
  The request each method of \<open>APIClient\<close> posts: its path and its JSON body. The body of
  a modify request has the four fields \<open>action_id\<close>, \<open>payload\<close>,
  \<open>record_preferences\<close> and \<open>apply_to_general_preferences\<close>.
\<close>

record modifyRequest =
  action_id :: string
  payload :: jsonMap
  record_preferences :: bool
  apply_to_general_preferences :: bool

datatype requestBody =
    emailBody Email
  | actionIDBody string
  | modifyBody modifyRequest

record request =
  path :: string
  body :: requestBody

definition PostNewEmail :: "Email \<Rightarrow> request" where
  "PostNewEmail e = \<lparr>path = ''/new_email'', body = emailBody e\<rparr>"

definition ApproveAction :: "string \<Rightarrow> request" where
  "ApproveAction actionID = \<lparr>path = ''/action/approve'', body = actionIDBody actionID\<rparr>"

definition RejectAction :: "string \<Rightarrow> request" where
  "RejectAction actionID = \<lparr>path = ''/action/reject'', body = actionIDBody actionID\<rparr>"

definition ModifyAction :: "string \<Rightarrow> jsonMap \<Rightarrow> bool \<Rightarrow> request" where
  "ModifyAction actionID pl applyToGeneral =
     \<lparr>path = ''/action/modify'',
      body = modifyBody \<lparr>action_id = actionID, payload = pl, record_preferences = True,
                         apply_to_general_preferences = applyToGeneral\<rparr>\<rparr>"

text \<open>The gateway commands a command consists of, and the request each of them sends.\<close>

fun gatewayCmds :: "cmd \<Rightarrow> cmd list" where
  "gatewayCmds (Batch cs) = concat (map gatewayCmds cs)"
| "gatewayCmds (loadSampleEmailCmd e) = [loadSampleEmailCmd e]"
| "gatewayCmds (approveActionCmd i a) = [approveActionCmd i a]"
| "gatewayCmds (rejectActionCmd i a) = [rejectActionCmd i a]"
| "gatewayCmds (modifyActionCmd i a p g) = [modifyActionCmd i a p g]"
| "gatewayCmds _ = []"

definition issued :: "cmd option \<Rightarrow> cmd list" where
  "issued c = (case c of None \<Rightarrow> [] | Some c' \<Rightarrow> gatewayCmds c')"

fun requestOf :: "cmd \<Rightarrow> request option" where
  "requestOf (loadSampleEmailCmd e) = Some (PostNewEmail e)"
| "requestOf (approveActionCmd i a) = Some (ApproveAction a)"
| "requestOf (rejectActionCmd i a) = Some (RejectAction a)"
| "requestOf (modifyActionCmd i a p g) = Some (ModifyAction a p g)"
| "requestOf _ = None"

text \<open>
  What the gateway answers, and the message a command's closure turns the answer into:
  on an error the methods return a nil response, or the zero \<open>Action\<close>, with the error.
\<close>

datatype answer = Failed string | EmailProcessed NewEmailResponse | ActionReturned Action

definition zeroAction :: Action where
  "zeroAction = \<lparr>ActionID = [], ActionMailID = [], Type = [], Status = [],
                  Payload = None, Result = None\<rparr>"

fun completion :: "cmd \<Rightarrow> answer \<Rightarrow> msg option" where
  "completion (loadSampleEmailCmd e) (Failed t) = Some (newEmailMsg e None (Some t))"
| "completion (loadSampleEmailCmd e) (EmailProcessed r) = Some (newEmailMsg e (Some r) None)"
| "completion (approveActionCmd i a) (Failed t) = Some (actionUpdatedMsg i zeroAction (Some t))"
| "completion (approveActionCmd i a) (ActionReturned x) = Some (actionUpdatedMsg i x None)"
| "completion (rejectActionCmd i a) (Failed t) = Some (actionUpdatedMsg i zeroAction (Some t))"
| "completion (rejectActionCmd i a) (ActionReturned x) = Some (actionUpdatedMsg i x None)"
| "completion (modifyActionCmd i a p g) (Failed t) = Some (actionUpdatedMsg i zeroAction (Some t))"
| "completion (modifyActionCmd i a p g) (ActionReturned x) = Some (actionUpdatedMsg i x None)"
| "completion _ _ = None"

section \<open>The event loop\<close>

text \<open>
  A state of the running program is the engine's model together with the gateway
  commands that were issued and have not completed yet. The program starts with
  \<open>Init\<close>; then the loop hands \<open>Update\<close> one event at a time: a key, a resize, a
  spinner tick or a message the engine ignores, or the completion message of one of the
  outstanding commands, with whatever the gateway answered. The quit command ends the
  program; the relation does not stop there, so it covers every state the program can
  be in.
\<close>

fun external :: "msg \<Rightarrow> bool" where
  "external (newEmailMsg e r t) = False"
| "external (actionUpdatedMsg i a t) = False"
| "external _ = True"

inductive reachable :: "lib \<Rightarrow> Email list \<Rightarrow> Email \<Rightarrow> appModel \<times> cmd list \<Rightarrow> bool"
  for L :: lib and samples :: "Email list" and fallback :: Email
where
  start: "reachable L samples fallback (Init L samples fallback newAppModel, [])"
| event:
    "reachable L samples fallback (m, out) \<Longrightarrow> external ev \<Longrightarrow>
     reachable L samples fallback (fst (Update L ev m), out @ issued (snd (Update L ev m)))"
| complete:
    "reachable L samples fallback (m, out) \<Longrightarrow> c \<in> set out \<Longrightarrow>
     completion c ans = Some ev \<Longrightarrow>
     reachable L samples fallback
       (fst (Update L ev m), remove1 c out @ issued (snd (Update L ev m)))"

section \<open>Invariant of the event loop\<close>

text \<open>
  The action index addresses an action of the Submission Result.
\<close>

definition validIndex :: "appModel \<Rightarrow> bool" where
  "validIndex m \<longleftrightarrow> actionAt m (currentAction m) \<noteq> None"

text \<open>
  An outstanding command fits the model: a submit-email command is awaited on the
  Loading screen; an action command is awaited on the SubmittingAction screen and carries
  the current action index and the identifier of the action at that index.
\<close>

fun awaited :: "appModel \<Rightarrow> cmd \<Rightarrow> bool" where
  "awaited m (loadSampleEmailCmd e) \<longleftrightarrow> view m = stateLoading"
| "awaited m (approveActionCmd i a) \<longleftrightarrow>
     view m = stateSubmittingAction \<and> i = currentAction m \<and> a = currentActionID m"
| "awaited m (rejectActionCmd i a) \<longleftrightarrow>
     view m = stateSubmittingAction \<and> i = currentAction m \<and> a = currentActionID m"
| "awaited m (modifyActionCmd i a p g) \<longleftrightarrow>
     view m = stateSubmittingAction \<and> i = currentAction m \<and> a = currentActionID m"
| "awaited m _ \<longleftrightarrow> False"

definition engineInv :: "appModel \<times> cmd list \<Rightarrow> bool" where
  "engineInv s \<longleftrightarrow>
     (let m = fst s; out = snd s
      in 0 \<le> currentEmail m
         \<and> (view m \<in> {stateReview, stateEditingPayload, statePromptGeneral, stateSubmittingAction}
              \<longrightarrow> validIndex m)
         \<and> (view m = stateSummary \<longrightarrow> hasActions m)
         \<and> (view m \<in> {statePreviewEmail, stateLoading} \<longrightarrow> currentAction m = 0)
         \<and> (hasActions m \<longrightarrow> validIndex m)
         \<and> (case out of [] \<Rightarrow> True | [c] \<Rightarrow> awaited m c | _ \<Rightarrow> False))"

text \<open>The part of the model the invariant reads.\<close>

definition core :: "appModel \<Rightarrow> viewState \<times> NewEmailResponse option \<times> int \<times> int" where
  "core m = (view m, response m, currentAction m, currentEmail m)"

section \<open>Working through the proposed actions\<close>

text \<open>
  The completion of the command issued for the current action, with the action the
  gateway returned; a sequence of such completions, one per returned action; and the
  number of completions in such a sequence on which the action index moves forward by one.
\<close>

definition completeNext :: "lib \<Rightarrow> Action \<Rightarrow> appModel \<Rightarrow> appModel" where
  "completeNext L a m = fst (Update L (actionUpdatedMsg (currentAction m) a None) m)"

fun completeAll :: "lib \<Rightarrow> appModel \<Rightarrow> Action list \<Rightarrow> appModel" where
  "completeAll L m [] = m"
| "completeAll L m (a # as) = completeAll L (completeNext L a m) as"

fun indexAdvances :: "lib \<Rightarrow> appModel \<Rightarrow> Action list \<Rightarrow> nat" where
  "indexAdvances L m [] = 0"
| "indexAdvances L m (a # as) =
     (if currentAction (completeNext L a m) = currentAction m + 1 then 1 else 0)
     + indexAdvances L (completeNext L a m) as"

section \<open>Concrete library, emails and actions for the examples\<close>

definition plainLib :: lib where
  "plainLib =
     \<lparr>titleStyle = (\<lambda>s. s), labelStyle = (\<lambda>s. s), successStyle = (\<lambda>s. s),
      errorTextStyle = (\<lambda>s. s), subtleTextStyle = (\<lambda>s. s),
      marshalIndent = (\<lambda>v. Inr ''{}''),
      jsonErrorText = (\<lambda>raw e. ''invalid character''),
      textareaUpdate = (\<lambda>k ed. (ed, None)),
      viewportScroll = (\<lambda>k vp. vp)\<rparr>"

definition mailA :: Email where
  "mailA = zeroEmail\<lparr>MailID := ''mail-1'', FromEmail := ''jamie.lee@example.com''\<rparr>"

definition mailB :: Email where
  "mailB = zeroEmail\<lparr>MailID := ''mail-2'', FromEmail := ''taylor.brooks@example.com''\<rparr>"

definition draftAction :: Action where
  "draftAction = zeroAction\<lparr>ActionID := ''act-1'', Type := ''draft'', Status := ''pending''\<rparr>"

definition eventAction :: Action where
  "eventAction = zeroAction\<lparr>ActionID := ''act-2'', Type := ''event'', Status := ''pending''\<rparr>"

definition approvedAction :: Action where
  "approvedAction = draftAction\<lparr>Status := ''approved''\<rparr>"

definition noClassification :: ClassificationPayload where
  "noClassification = \<lparr>Probabilities = None, Decisions = None\<rparr>"

definition oneActionResponse :: NewEmailResponse where
  "oneActionResponse =
     \<lparr>RespMailID = ''mail-1'', Summary = None, ProposedActions = [draftAction],
      Classification = noClassification\<rparr>"

definition twoActionResponse :: NewEmailResponse where
  "twoActionResponse =
     \<lparr>RespMailID = ''mail-1'', Summary = None, ProposedActions = [draftAction, eventAction],
      Classification = noClassification\<rparr>"

text \<open>The engine after \<open>Init\<close> on two sample emails, and on some of its screens.\<close>

definition startModel :: appModel where
  "startModel = Init plainLib [mailA, mailB] mailA newAppModel"

definition doneModel :: appModel where
  "doneModel = startModel\<lparr>view := stateDone\<rparr>"

definition lastDoneModel :: appModel where
  "lastDoneModel = startModel\<lparr>view := stateDone, currentEmail := 1\<rparr>"

definition errorModel :: appModel where
  "errorModel = startModel\<lparr>view := stateError, err := Some ''post /new_email: refused''\<rparr>"

definition reviewModel :: appModel where
  "reviewModel = startModel\<lparr>view := stateReview, response := Some twoActionResponse\<rparr>"

definition lastReviewModel :: appModel where
  "lastReviewModel = startModel\<lparr>view := stateReview, response := Some oneActionResponse\<rparr>"

definition enterKey :: KeyMsg where
  "enterKey = \<lparr>KeyType = KeyEnter, Runes = []\<rparr>"

definition runeKey :: "string \<Rightarrow> KeyMsg" where
  "runeKey s = \<lparr>KeyType = KeyRunes, Runes = s\<rparr>"

definition saveKey :: KeyMsg where
  "saveKey = \<lparr>KeyType = KeyCtrlS, Runes = []\<rparr>"

text \<open>The payload editor holding the text \<open>{"k": 1}\<close>, \<open>null\<close> and \<open>{invalid\<close>.\<close>

definition objectText :: string where
  "objectText = [CHR ''{'', CHR 0x22, CHR ''k'', CHR 0x22, CHR '':'', CHR '' '', CHR ''1'', CHR ''}'']"

definition editingModel :: "string \<Rightarrow> appModel" where
  "editingModel text =
     reviewModel\<lparr>view := stateEditingPayload,
                 editor := \<lparr>edValue = text, edWidth = 80, edHeight = 12, edFocused = True\<rparr>\<rparr>"

text \<open>The classification \<open>{"urgent": 0.82}\<close> with the decisions \<open>{"urgent": true}\<close>; the
  double nearest to 0.82 is \<open>7385903388887613 * 2 ^ -53\<close>, and 0.25 is \<open>1 * 2 ^ -2\<close>.\<close>

definition float_0_82 :: float64 where
  "float_0_82 = Finite False 7385903388887613 (- 53)"

definition float_0_25 :: float64 where
  "float_0_25 = Finite False 1 (- 2)"

definition urgentClassification :: ClassificationPayload where
  "urgentClassification =
     \<lparr>Probabilities = Some [(''urgent'', float_0_82)],
      Decisions = Some [(''urgent'', True)]\<rparr>"

definition mixedClassification :: ClassificationPayload where
  "mixedClassification =
     \<lparr>Probabilities = Some [(''urgent'', float_0_82), (''draft'', float_0_25)],
      Decisions = Some [(''urgent'', True), (''draft'', False)]\<rparr>"

definition emptyClassification :: ClassificationPayload where
  "emptyClassification = \<lparr>Probabilities = Some [], Decisions = Some []\<rparr>"

text \<open>A run of the event loop: submit the first email, receive two proposed actions,
  and open the review.\<close>

definition loadingModel :: appModel where
  "loadingModel = fst (Update plainLib (KeyPress enterKey) startModel)"

definition summaryReached :: appModel where
  "summaryReached =
     fst (Update plainLib (newEmailMsg mailA (Some twoActionResponse) None) loadingModel)"

definition reviewReached :: appModel where
  "reviewReached =
     fst (Update plainLib (KeyPress enterKey) summaryReached)"

text \<open>The run continued: both actions are approved, the next email is loaded and
  submitted.\<close>

definition submittingFirst :: appModel where
  "submittingFirst = fst (Update plainLib (KeyPress (runeKey ''a'')) reviewReached)"

definition reviewSecond :: appModel where
  "reviewSecond = fst (Update plainLib (actionUpdatedMsg 0 approvedAction None) submittingFirst)"

definition submittingSecond :: appModel where
  "submittingSecond = fst (Update plainLib (KeyPress (runeKey ''a'')) reviewSecond)"

definition doneReached :: appModel where
  "doneReached = fst (Update plainLib (actionUpdatedMsg 1 eventAction None) submittingSecond)"

definition previewSecond :: appModel where
  "previewSecond = fst (Update plainLib (KeyPress enterKey) doneReached)"

definition loadingSecond :: appModel where
  "loadingSecond = fst (Update plainLib (KeyPress enterKey) previewSecond)"

section \<open>Basic facts about the engine\<close>

lemma noScroll:
  "KeyType k = KeyRunes \<Longrightarrow> \<not> fst (handleViewportScroll L k m)"
  "KeyType k = KeyEnter \<Longrightarrow> \<not> fst (handleViewportScroll L k m)"
  "KeyType k = KeyCtrlS \<Longrightarrow> \<not> fst (handleViewportScroll L k m)"
  "KeyType k = KeyEsc \<Longrightarrow> \<not> fst (handleViewportScroll L k m)"
  by (simp_all add: handleViewportScroll_def)

lemma refreshViewport_fields:
  "view (refreshViewport L r m) = view m"
  "email (refreshViewport L r m) = email m"
  "emails (refreshViewport L r m) = emails m"
  "currentEmail (refreshViewport L r m) = currentEmail m"
  "response (refreshViewport L r m) = response m"
  "currentAction (refreshViewport L r m) = currentAction m"
  "status (refreshViewport L r m) = status m"
  "editor (refreshViewport L r m) = editor m"
  "editorErr (refreshViewport L r m) = editorErr m"
  "pending (refreshViewport L r m) = pending m"
  "err (refreshViewport L r m) = err m"
  by (simp_all add: refreshViewport_def Let_def)

lemma setView_fields:
  "view (setView L v st m) = v"
  "email (setView L v st m) = email m"
  "emails (setView L v st m) = emails m"
  "currentEmail (setView L v st m) = currentEmail m"
  "response (setView L v st m) = response m"
  "currentAction (setView L v st m) = currentAction m"
  "status (setView L v st m) = st"
  "editor (setView L v st m) = editor m"
  "editorErr (setView L v st m) = editorErr m"
  "pending (setView L v st m) = pending m"
  "err (setView L v st m) = err m"
  by (simp_all add: setView_def refreshViewport_fields)

lemma setView_content:
  "v \<in> {statePreviewEmail, stateSummary, stateReview, statePromptGeneral, stateDone, stateError} \<Longrightarrow>
   vpContent (viewport (setView L v st m)) = currentViewContent L (m\<lparr>view := v, status := st\<rparr>)"
  by (auto simp add: setView_def refreshViewport_def viewUsesViewport_def Let_def
        SetContent_def GotoTop_def)

lemma render_widgets:
  "renderPreviewEmailContent L (m\<lparr>viewport := vp, editor := ed\<rparr>) = renderPreviewEmailContent L m"
  "renderSummaryContent L (m\<lparr>viewport := vp, editor := ed\<rparr>) = renderSummaryContent L m"
  "renderCurrentActionContent L (m\<lparr>viewport := vp, editor := ed\<rparr>) = renderCurrentActionContent L m"
  "renderPromptGeneralContent L (m\<lparr>viewport := vp, editor := ed\<rparr>) = renderPromptGeneralContent L m"
  "renderFinalStatusContent L (m\<lparr>viewport := vp, editor := ed\<rparr>) = renderFinalStatusContent L m"
  "renderErrorContent L (m\<lparr>viewport := vp, editor := ed\<rparr>) = renderErrorContent L m"
  by (simp_all add: renderPreviewEmailContent_def renderSummaryContent_def
        renderCurrentActionContent_def renderPromptGeneralContent_def
        renderFinalStatusContent_def renderErrorContent_def currentActionRef_def actionAt_def
        hasMoreEmails_def Let_def cong: option.case_cong if_cong)

lemma currentViewContent_widgets:
  "currentViewContent L (m\<lparr>viewport := vp, editor := ed\<rparr>) = currentViewContent L m"
  by (simp add: currentViewContent_def render_widgets split: viewState.splits)

lemma fail_fields:
  "view (fst (fail L t m)) = stateError"
  "err (fst (fail L t m)) = Some t"
  "snd (fail L t m) = None"
  "vpContent (viewport (fst (fail L t m))) =
     titleStyle L ''Error'' @ [newline, newline] @ errorTextStyle L t @ [newline, newline]
     @ subtleTextStyle L ''Press Enter to exit.''"
  "vpContent (viewport (fst (fail L t m))) = renderErrorContent L (fst (fail L t m))"
  by (simp_all add: fail_def setView_fields setView_content currentViewContent_def
        renderErrorContent_def)

lemma wrapInt_succ:
  "0 \<le> x \<Longrightarrow> x < MaxInt64 \<Longrightarrow> wrapInt (x + 1) = x + 1"
  by (simp add: wrapInt_def MaxInt64_def)

lemma wrapInt_MaxInt64:
  "wrapInt (MaxInt64 + 1) = - (2 ^ 63)"
  by (simp add: wrapInt_def MaxInt64_def)

lemma wrapInt_examples:
  "wrapInt 1 = 1" "wrapInt 2 = 2"
  by (simp_all add: wrapInt_def)

lemma error_enter_quits:
  "view m = stateError \<Longrightarrow> KeyType k = KeyEnter \<Longrightarrow> handleKeyMsg L k m = (m, Some Quit)"
  by (simp add: handleKeyMsg_def noScroll)

lemma failed_completion:
  "requestOf c \<noteq> None \<Longrightarrow>
   \<exists>ev. completion c (Failed t) = Some ev \<and> Update L ev m = fail L t m"
  by (cases c) (simp_all add: Update_def)

lemma startModel_fields:
  "view startModel = statePreviewEmail"
  "emails startModel = [mailA, mailB]"
  "currentEmail startModel = 0"
  "email startModel = mailA"
  "response startModel = None"
  "currentAction startModel = 0"
  "pending startModel = None"
  "err startModel = None"
  by (simp_all add: startModel_def Init_def prepareEmail_def newAppModel_def setView_fields)

lemma ToLower_examples:
  "ToLower ''q'' = ''q''" "ToLower ''Q'' = ''q''" "ToLower ''y'' = ''y''"
  "ToLower ''n'' = ''n''" "ToLower ''a'' = ''a''" "ToLower ''r'' = ''r''"
  "ToLower ''m'' = ''m''"
  by code_simp+

section \<open>Quit key on the final screens\<close>

text \<open>
  Claim C6, as amended. The quit key is a rune key whose lower-cased text is \<open>q\<close>. On the
  Done screen it ends the process: the engine returns the quit command and leaves the
  model as it is. On the Error screen the quit key is ignored: the model is unchanged
  and no command is returned; the process ends there on the confirm key, for which the
  engine returns the quit command.
\<close>

theorem quit_key_on_done_and_error:
  assumes "KeyType k = KeyRunes" and "ToLower (Runes k) = ''q''"
  shows "(view m = stateDone \<longrightarrow> handleKeyMsg L k m = (m, Some Quit))
       \<and> (view m = stateError \<longrightarrow> handleKeyMsg L k m = (m, None))
       \<and> (view m = stateError \<longrightarrow>
            (\<forall>c. KeyType c = KeyEnter \<longrightarrow> handleKeyMsg L c m = (m, Some Quit)))"
  using assms by (simp add: handleKeyMsg_def noScroll)

theorem quit_key_on_done_and_error_witness:
  "KeyType (runeKey ''Q'') = KeyRunes \<and> ToLower (Runes (runeKey ''Q'')) = ''q''
   \<and> view doneModel = stateDone
   \<and> handleKeyMsg plainLib (runeKey ''Q'') doneModel = (doneModel, Some Quit)
   \<and> view errorModel = stateError
   \<and> handleKeyMsg plainLib (runeKey ''Q'') errorModel = (errorModel, None)
   \<and> KeyType enterKey = KeyEnter
   \<and> handleKeyMsg plainLib enterKey errorModel = (errorModel, Some Quit)"
proof -
  have k: "KeyType (runeKey ''Q'') = KeyRunes"
    by (simp add: runeKey_def)
  have q: "ToLower (Runes (runeKey ''Q'')) = ''q''"
    by (simp add: runeKey_def ToLower_examples)
  have d: "view doneModel = stateDone"
    by (simp add: doneModel_def)
  have e: "view errorModel = stateError"
    by (simp add: errorModel_def)
  have c: "KeyType enterKey = KeyEnter"
    by (simp add: enterKey_def)
  from quit_key_on_done_and_error [OF k q, of doneModel plainLib]
    quit_key_on_done_and_error [OF k q, of errorModel plainLib] k q d e c
  show ?thesis by simp
qed

text \<open>
  The claim as the specification states it fails on the Error screen: there the quit key
  does not return the quit command.
\<close>

theorem quit_key_on_error_counterexample:
  "view errorModel = stateError
   \<and> KeyType (runeKey ''q'') = KeyRunes \<and> ToLower (Runes (runeKey ''q'')) = ''q''
   \<and> snd (handleKeyMsg plainLib (runeKey ''q'') errorModel) \<noteq> Some Quit"
  by (simp add: handleKeyMsg_def noScroll errorModel_def runeKey_def ToLower_examples)

section \<open>Confirming on the Done screen\<close>

text \<open>
  Claim C9. On the Done screen, with the email index not negative and below the largest
  \<open>int\<close> (as it is in every state of a run, see the section on the email index below),
  the confirm key does the following. More sample emails remain
  (\<open>hasMoreEmails\<close>) exactly when the index of the next one is below the number of
  samples. When more sample emails remain, the engine prepares the next one exactly
  as \<open>Init\<close> prepares the first (\<open>prepareEmail\<close>): the email index advances by one,
  the current email is the next sample, the Submission Result and the pending edit are
  cleared, the action index is 0, the editor error and the recorded error are cleared, the
  screen is PreviewEmail, and no command is issued. When none remains, the engine returns
  the quit command.
\<close>

theorem done_confirm_loads_next_email:
  assumes "view m = stateDone" and "KeyType k = KeyEnter"
    and "0 \<le> currentEmail m" and "currentEmail m < MaxInt64"
  shows "(hasMoreEmails m \<longleftrightarrow> currentEmail m + 1 < int (length (emails m)))
       \<and> (hasMoreEmails m \<longrightarrow>
            handleKeyMsg L k m = (prepareEmail L (currentEmail m + 1) m, None)
          \<and> currentEmail (fst (handleKeyMsg L k m)) = currentEmail m + 1
          \<and> email (fst (handleKeyMsg L k m)) = emails m ! nat (currentEmail m + 1)
          \<and> emails (fst (handleKeyMsg L k m)) = emails m
          \<and> response (fst (handleKeyMsg L k m)) = None
          \<and> pending (fst (handleKeyMsg L k m)) = None
          \<and> currentAction (fst (handleKeyMsg L k m)) = 0
          \<and> editorErr (fst (handleKeyMsg L k m)) = []
          \<and> err (fst (handleKeyMsg L k m)) = None
          \<and> view (fst (handleKeyMsg L k m)) = statePreviewEmail)
       \<and> (\<not> hasMoreEmails m \<longrightarrow> handleKeyMsg L k m = (m, Some Quit))"
proof -
  have h: "handleKeyMsg L k m =
            (if hasMoreEmails m then (prepareNextEmail L m, None) else (m, Some Quit))"
    using assms(1,2) by (simp add: handleKeyMsg_def noScroll)
  have w: "wrapInt (currentEmail m + 1) = currentEmail m + 1"
    using assms(3,4) by (rule wrapInt_succ)
  have r: "hasMoreEmails m \<longleftrightarrow> currentEmail m + 1 < int (length (emails m))"
    by (simp add: hasMoreEmails_def w)
  show ?thesis
  proof (cases "hasMoreEmails m")
    case False
    with h r show ?thesis by simp
  next
    case True
    then have lt: "currentEmail m + 1 < int (length (emails m))"
      by (simp add: r)
    then have n: "prepareNextEmail L m = prepareEmail L (currentEmail m + 1) m"
      by (simp add: prepareNextEmail_def Let_def w)
    have p: "prepareEmail L (currentEmail m + 1) m =
               setView L statePreviewEmail previewInstruction
                 (m\<lparr>currentEmail := currentEmail m + 1,
                    email := emails m ! nat (currentEmail m + 1),
                    response := None, pending := None, currentAction := 0,
                    editorErr := [], err := None\<rparr>)"
      using lt assms(3) by (simp add: prepareEmail_def)
    show ?thesis using True h n r
      by (simp add: p setView_fields)
  qed
qed

theorem done_confirm_loads_next_email_witness:
  "view doneModel = stateDone \<and> KeyType enterKey = KeyEnter \<and> 0 \<le> currentEmail doneModel
   \<and> currentEmail doneModel < MaxInt64
   \<and> hasMoreEmails doneModel
   \<and> view (fst (handleKeyMsg plainLib enterKey doneModel)) = statePreviewEmail
   \<and> email (fst (handleKeyMsg plainLib enterKey doneModel)) = mailB
   \<and> response (fst (handleKeyMsg plainLib enterKey doneModel)) = None
   \<and> currentAction (fst (handleKeyMsg plainLib enterKey doneModel)) = 0
   \<and> view lastDoneModel = stateDone \<and> 0 \<le> currentEmail lastDoneModel
   \<and> currentEmail lastDoneModel < MaxInt64
   \<and> \<not> hasMoreEmails lastDoneModel
   \<and> handleKeyMsg plainLib enterKey lastDoneModel = (lastDoneModel, Some Quit)"
proof -
  have k: "KeyType enterKey = KeyEnter"
    by (simp add: enterKey_def)
  have d: "view doneModel = stateDone" "0 \<le> currentEmail doneModel" "hasMoreEmails doneModel"
    "emails doneModel ! nat (currentEmail doneModel + 1) = mailB"
    "currentEmail doneModel < MaxInt64"
    by (simp_all add: doneModel_def hasMoreEmails_def startModel_fields wrapInt_examples
          MaxInt64_def)
  have l: "view lastDoneModel = stateDone" "0 \<le> currentEmail lastDoneModel"
    "\<not> hasMoreEmails lastDoneModel" "currentEmail lastDoneModel < MaxInt64"
    by (simp_all add: lastDoneModel_def hasMoreEmails_def startModel_fields wrapInt_examples
          MaxInt64_def)
  from done_confirm_loads_next_email [OF d(1) k d(2) d(5), of plainLib] d(3)
  have n: "view (fst (handleKeyMsg plainLib enterKey doneModel)) = statePreviewEmail"
    "email (fst (handleKeyMsg plainLib enterKey doneModel)) =
       emails doneModel ! nat (currentEmail doneModel + 1)"
    "response (fst (handleKeyMsg plainLib enterKey doneModel)) = None"
    "currentAction (fst (handleKeyMsg plainLib enterKey doneModel)) = 0"
    by blast+
  from done_confirm_loads_next_email [OF l(1) k l(2) l(4), of plainLib] l(3)
  have q: "handleKeyMsg plainLib enterKey lastDoneModel = (lastDoneModel, Some Quit)"
    by blast
  from n(2) d(4) have e: "email (fst (handleKeyMsg plainLib enterKey doneModel)) = mailB"
    by simp
  from k d(1,2,3,5) n(1) e n(3,4) l q show ?thesis
    by blast
qed

section \<open>Gateway errors\<close>

text \<open>
  Claim C5. Let \<open>c\<close> be any of the four gateway commands (submit-email, approve, reject,
  modify) and let the gateway answer it with an error whose text is \<open>t\<close>. Then the
  command's completion message exists, and processing it in any state of the engine moves
  the engine to the Error screen and records the error; the content shown on that screen
  is the output of \<open>renderErrorContent\<close>: the title, the error's text \<open>t\<close> in the error
  style, and the exit hint; and the confirm key on that screen returns the quit command.
\<close>

theorem gateway_error_shows_error_screen:
  assumes "requestOf c \<noteq> None"
  shows "\<exists>ev. completion c (Failed t) = Some ev
          \<and> view (fst (Update L ev m)) = stateError
          \<and> err (fst (Update L ev m)) = Some t
          \<and> vpContent (viewport (fst (Update L ev m))) = renderErrorContent L (fst (Update L ev m))
          \<and> renderErrorContent L (fst (Update L ev m)) =
              titleStyle L ''Error'' @ [newline, newline] @ errorTextStyle L t
              @ [newline, newline] @ subtleTextStyle L ''Press Enter to exit.''
          \<and> (\<forall>k. KeyType k = KeyEnter \<longrightarrow>
                 snd (handleKeyMsg L k (fst (Update L ev m))) = Some Quit)"
proof -
  from failed_completion [OF assms] obtain ev
    where ev: "completion c (Failed t) = Some ev" "Update L ev m = fail L t m"
    by blast
  have "\<forall>k. KeyType k = KeyEnter \<longrightarrow> snd (handleKeyMsg L k (fst (fail L t m))) = Some Quit"
    by (simp add: error_enter_quits fail_fields)
  with ev show ?thesis
    using fail_fields(4,5) [of L t m] by (auto simp add: fail_fields(1,2))
qed

theorem gateway_error_shows_error_screen_witness:
  "requestOf (modifyActionCmd 0 ''act-1'' None True) \<noteq> None
   \<and> (\<exists>ev. completion (modifyActionCmd 0 ''act-1'' None True) (Failed ''timeout'') = Some ev
          \<and> view (fst (Update plainLib ev reviewModel)) = stateError
          \<and> err (fst (Update plainLib ev reviewModel)) = Some ''timeout''
          \<and> vpContent (viewport (fst (Update plainLib ev reviewModel))) =
              ''Error'' @ [newline, newline] @ ''timeout'' @ [newline, newline]
              @ ''Press Enter to exit.''
          \<and> snd (handleKeyMsg plainLib enterKey (fst (Update plainLib ev reviewModel))) = Some Quit)"
proof -
  have r: "requestOf (modifyActionCmd 0 ''act-1'' None True) \<noteq> None"
    by simp
  have k: "KeyType enterKey = KeyEnter"
    by (simp add: enterKey_def)
  from gateway_error_shows_error_screen [OF r, of "''timeout''" plainLib reviewModel]
  obtain ev where
    ev: "completion (modifyActionCmd 0 ''act-1'' None True) (Failed ''timeout'') = Some ev"
      "view (fst (Update plainLib ev reviewModel)) = stateError"
      "err (fst (Update plainLib ev reviewModel)) = Some ''timeout''"
      "vpContent (viewport (fst (Update plainLib ev reviewModel))) =
         renderErrorContent plainLib (fst (Update plainLib ev reviewModel))"
      "renderErrorContent plainLib (fst (Update plainLib ev reviewModel)) =
         titleStyle plainLib ''Error'' @ [newline, newline] @ errorTextStyle plainLib ''timeout''
         @ [newline, newline] @ subtleTextStyle plainLib ''Press Enter to exit.''"
      "\<forall>k. KeyType k = KeyEnter \<longrightarrow>
         snd (handleKeyMsg plainLib k (fst (Update plainLib ev reviewModel))) = Some Quit"
    by blast
  from ev(4,5) have c: "vpContent (viewport (fst (Update plainLib ev reviewModel))) =
      ''Error'' @ [newline, newline] @ ''timeout'' @ [newline, newline] @ ''Press Enter to exit.''"
    by (simp add: plainLib_def)
  from ev(6) k have q: "snd (handleKeyMsg plainLib enterKey (fst (Update plainLib ev reviewModel))) = Some Quit"
    by blast
  from r ev(1,2,3) c q show ?thesis by blast
qed

section \<open>Resize\<close>

text \<open>
  Claim C7. Processing a resize event in any state issues no command and leaves the
  screen, the action index, the current email, the email list and its index, the
  Submission Result with all its actions, the pending edit, the recorded error, the
  status line, the editor's error, the editor's text and its focus unchanged. Only the
  viewport (its dimensions, its scroll position, and its text, which is re-rendered from
  the unchanged data when the size is positive and the screen is a scrollable one, the
  scroll position then being reset to the top) and the editor's dimensions can differ.
\<close>

theorem resize_changes_only_geometry:
  "snd (Update L (WindowSizeMsg w h) m) = None
   \<and> view (fst (Update L (WindowSizeMsg w h) m)) = view m
   \<and> currentAction (fst (Update L (WindowSizeMsg w h) m)) = currentAction m
   \<and> email (fst (Update L (WindowSizeMsg w h) m)) = email m
   \<and> emails (fst (Update L (WindowSizeMsg w h) m)) = emails m
   \<and> currentEmail (fst (Update L (WindowSizeMsg w h) m)) = currentEmail m
   \<and> response (fst (Update L (WindowSizeMsg w h) m)) = response m
   \<and> pending (fst (Update L (WindowSizeMsg w h) m)) = pending m
   \<and> err (fst (Update L (WindowSizeMsg w h) m)) = err m
   \<and> status (fst (Update L (WindowSizeMsg w h) m)) = status m
   \<and> editorErr (fst (Update L (WindowSizeMsg w h) m)) = editorErr m
   \<and> edValue (editor (fst (Update L (WindowSizeMsg w h) m))) = edValue (editor m)
   \<and> edFocused (editor (fst (Update L (WindowSizeMsg w h) m))) = edFocused (editor m)
   \<and> edWidth (editor (fst (Update L (WindowSizeMsg w h) m))) =
       (if 0 < w \<and> 0 < h then maxInt 20 (w - 4) else edWidth (editor m))
   \<and> edHeight (editor (fst (Update L (WindowSizeMsg w h) m))) =
       (if 0 < w \<and> 0 < h then maxInt 5 (maxInt 5 (h - 2) - 2) else edHeight (editor m))
   \<and> vpWidth (viewport (fst (Update L (WindowSizeMsg w h) m))) =
       (if 0 < w \<and> 0 < h then w else vpWidth (viewport m))
   \<and> vpHeight (viewport (fst (Update L (WindowSizeMsg w h) m))) =
       (if 0 < w \<and> 0 < h then maxInt 5 (h - 2) else vpHeight (viewport m))
   \<and> YOffset (viewport (fst (Update L (WindowSizeMsg w h) m))) =
       (if 0 < w \<and> 0 < h \<and> viewUsesViewport m then 0 else YOffset (viewport m))
   \<and> vpContent (viewport (fst (Update L (WindowSizeMsg w h) m))) =
       (if 0 < w \<and> 0 < h \<and> viewUsesViewport m then currentViewContent L m
        else vpContent (viewport m))"
proof -
  have u: "Update L (WindowSizeMsg w h) m = (handleWindowSize L w h m, None)"
    by (simp add: Update_def)
  have c: "vpContent (viewport (handleWindowSize L w h m)) =
       (if 0 < w \<and> 0 < h \<and> viewUsesViewport m then currentViewContent L m
        else vpContent (viewport m))"
    by (simp add: handleWindowSize_def Let_def refreshViewport_def SetContent_def GotoTop_def
          viewUsesViewport_def currentViewContent_widgets)
  have f: "view (handleWindowSize L w h m) = view m"
    "currentAction (handleWindowSize L w h m) = currentAction m"
    "email (handleWindowSize L w h m) = email m"
    "emails (handleWindowSize L w h m) = emails m"
    "currentEmail (handleWindowSize L w h m) = currentEmail m"
    "response (handleWindowSize L w h m) = response m"
    "pending (handleWindowSize L w h m) = pending m"
    "err (handleWindowSize L w h m) = err m"
    "status (handleWindowSize L w h m) = status m"
    "editorErr (handleWindowSize L w h m) = editorErr m"
    "edValue (editor (handleWindowSize L w h m)) = edValue (editor m)"
    "edFocused (editor (handleWindowSize L w h m)) = edFocused (editor m)"
    "edWidth (editor (handleWindowSize L w h m)) =
       (if 0 < w \<and> 0 < h then maxInt 20 (w - 4) else edWidth (editor m))"
    "edHeight (editor (handleWindowSize L w h m)) =
       (if 0 < w \<and> 0 < h then maxInt 5 (maxInt 5 (h - 2) - 2) else edHeight (editor m))"
    by (simp_all add: handleWindowSize_def Let_def refreshViewport_fields SetWidth_def
          SetHeight_def)
  have g: "vpWidth (viewport (handleWindowSize L w h m)) =
       (if 0 < w \<and> 0 < h then w else vpWidth (viewport m))"
    "vpHeight (viewport (handleWindowSize L w h m)) =
       (if 0 < w \<and> 0 < h then maxInt 5 (h - 2) else vpHeight (viewport m))"
    "YOffset (viewport (handleWindowSize L w h m)) =
       (if 0 < w \<and> 0 < h \<and> viewUsesViewport m then 0 else YOffset (viewport m))"
    by (simp_all add: handleWindowSize_def Let_def refreshViewport_def SetContent_def GotoTop_def
          viewUsesViewport_def)
  show ?thesis
    unfolding u by (simp add: c f g)
qed

theorem resize_changes_only_geometry_witness:
  "snd (Update plainLib (WindowSizeMsg 100 40) reviewModel) = None
   \<and> view (fst (Update plainLib (WindowSizeMsg 100 40) reviewModel)) = stateReview
   \<and> currentAction (fst (Update plainLib (WindowSizeMsg 100 40) reviewModel)) = 0
   \<and> response (fst (Update plainLib (WindowSizeMsg 100 40) reviewModel)) = Some twoActionResponse
   \<and> err (fst (Update plainLib (WindowSizeMsg 100 40) reviewModel)) = None"
  using resize_changes_only_geometry [of plainLib 100 40 reviewModel]
  by (simp add: reviewModel_def startModel_fields)

section \<open>The invariant holds in every reachable state\<close>

lemma engineInv_fields:
  "view m' = view m \<Longrightarrow> response m' = response m \<Longrightarrow> currentAction m' = currentAction m \<Longrightarrow>
   currentEmail m' = currentEmail m \<Longrightarrow> engineInv (m', out) = engineInv (m, out)"
proof -
  assume a: "view m' = view m" "response m' = response m" "currentAction m' = currentAction m"
    "currentEmail m' = currentEmail m"
  have v: "validIndex m' = validIndex m" "hasActions m' = hasActions m"
    using a by (simp_all add: validIndex_def hasActions_def actionAt_def)
  have w: "awaited m' c = awaited m c" for c
    using a by (cases c) (simp_all add: currentActionID_def currentActionRef_def actionAt_def)
  show ?thesis
    by (simp add: engineInv_def a v w cong: list.case_cong)
qed

lemma core_setView: "core (setView L v st m) = (v, response m, currentAction m, currentEmail m)"
  by (simp add: core_def setView_fields)

lemma core_fail: "core (fst (fail L t m)) = (stateError, response m, currentAction m, currentEmail m)"
  by (simp add: fail_def core_setView)

lemma fail_core_fields:
  "response (fst (fail L t m)) = response m"
  "currentAction (fst (fail L t m)) = currentAction m"
  "currentEmail (fst (fail L t m)) = currentEmail m"
  by (simp_all add: fail_def setView_fields)

lemma preview_key:
  "view m = statePreviewEmail \<Longrightarrow>
   (core (fst (handlePreviewKey L k m)) = core m \<and> issued (snd (handlePreviewKey L k m)) = [])
   \<or> (core (fst (handlePreviewKey L k m)) = (stateLoading, response m, currentAction m, currentEmail m)
       \<and> issued (snd (handlePreviewKey L k m)) = [loadSampleEmailCmd (email m)])"
  by (simp add: handlePreviewKey_def beginEmailSubmission_def core_setView issued_def
        split: keyType.splits)

lemma review_key:
  "view m = stateReview \<Longrightarrow>
   (core (fst (handleReviewKey L k m)) = core m \<and> issued (snd (handleReviewKey L k m)) = [])
   \<or> (validIndex m
       \<and> core (fst (handleReviewKey L k m)) = (stateSubmittingAction, response m, currentAction m, currentEmail m)
       \<and> (issued (snd (handleReviewKey L k m)) = [approveActionCmd (currentAction m) (currentActionID m)]
          \<or> issued (snd (handleReviewKey L k m)) = [rejectActionCmd (currentAction m) (currentActionID m)]))
   \<or> (validIndex m
       \<and> core (fst (handleReviewKey L k m)) = (stateEditingPayload, response m, currentAction m, currentEmail m)
       \<and> issued (snd (handleReviewKey L k m)) = [])
   \<or> (core (fst (handleReviewKey L k m)) = (stateError, response m, currentAction m, currentEmail m)
       \<and> issued (snd (handleReviewKey L k m)) = [])"
  by (auto simp add: handleReviewKey_def beginActionUpdate_def enterPayloadEditor_def core_setView
        core_fail fail_fields fail_core_fields setView_fields issued_def Let_def validIndex_def
        currentActionRef_def currentActionID_def core_def
        split: option.splits sum.splits)

lemma payload_key:
  "view m = stateEditingPayload \<Longrightarrow>
   issued (snd (handlePayloadKey L k m)) = []
   \<and> (\<exists>v \<in> {stateEditingPayload, statePromptGeneral, stateReview}.
        core (fst (handlePayloadKey L k m)) = (v, response m, currentAction m, currentEmail m))"
  by (auto simp add: handlePayloadKey_def setView_fields issued_def Let_def core_def
        split: prod.splits keyType.splits sum.splits option.splits)

lemma prompt_key:
  "view m = statePromptGeneral \<Longrightarrow>
   (core (fst (handlePromptKey L k m)) = core m \<and> issued (snd (handlePromptKey L k m)) = [])
   \<or> (core (fst (handlePromptKey L k m)) = (stateSubmittingAction, response m, currentAction m, currentEmail m)
       \<and> (\<exists>g. issued (snd (handlePromptKey L k m)) =
                 [modifyActionCmd (currentAction m) (currentActionID m) (pending m) g]))"
  by (auto simp add: handlePromptKey_def submitModifiedAction_def beginActionUpdate_def core_setView
        issued_def Let_def split: keyType.splits)


lemma engineInv_core_eq: "core m' = core m'' \<Longrightarrow> engineInv (m', out) = engineInv (m'', out)"
  by (rule engineInv_fields) (simp_all add: core_def)

lemma view_upd_facts:
  "validIndex (m\<lparr>view := v\<rparr>) = validIndex m"
  "hasActions (m\<lparr>view := v\<rparr>) = hasActions m"
  "currentActionID (m\<lparr>view := v\<rparr>) = currentActionID m"
  by (simp_all add: validIndex_def hasActions_def actionAt_def currentActionID_def
        currentActionRef_def)

lemma engineInv_idle:
  "engineInv (m, out) \<Longrightarrow> view m \<notin> {stateLoading, stateSubmittingAction} \<Longrightarrow> out = []"
  by (cases out; cases "tl out"; cases "hd out")
     (auto simp add: engineInv_def split: list.splits)

lemma inv_coreI: "core m' = core m'' \<Longrightarrow> engineInv (m'', out) \<Longrightarrow> engineInv (m', out)"
  using engineInv_core_eq by blast

lemma inv_moved:
  assumes "core m' = (v, response m, currentAction m, currentEmail m)"
    and "engineInv (m\<lparr>view := v\<rparr>, out)"
  shows "engineInv (m', out)"
  using assms(1) by (intro inv_coreI [OF _ assms(2)]) (simp add: core_def)

lemma inv_view_upd:
  "engineInv (m\<lparr>view := v\<rparr>, out) \<longleftrightarrow>
     0 \<le> currentEmail m
     \<and> (v \<in> {stateReview, stateEditingPayload, statePromptGeneral, stateSubmittingAction}
          \<longrightarrow> validIndex m)
     \<and> (v = stateSummary \<longrightarrow> hasActions m)
     \<and> (v \<in> {statePreviewEmail, stateLoading} \<longrightarrow> currentAction m = 0)
     \<and> (hasActions m \<longrightarrow> validIndex m)
     \<and> (case out of [] \<Rightarrow> True | [c] \<Rightarrow> awaited (m\<lparr>view := v\<rparr>) c | _ \<Rightarrow> False)"
  by (simp add: engineInv_def view_upd_facts)

lemma inv_preview:
  assumes "engineInv (m, out)" "view m = statePreviewEmail"
  shows "engineInv (fst (handlePreviewKey L k m), out @ issued (snd (handlePreviewKey L k m)))"
proof -
  have o: "out = []" using engineInv_idle [OF assms(1)] assms(2) by simp
  from preview_key [OF assms(2), of L k] show ?thesis
  proof (elim disjE conjE)
    assume "core (fst (handlePreviewKey L k m)) = core m" "issued (snd (handlePreviewKey L k m)) = []"
    then show ?thesis using assms(1) by (simp add: inv_coreI)
  next
    assume a: "core (fst (handlePreviewKey L k m)) = (stateLoading, response m, currentAction m, currentEmail m)"
       "issued (snd (handlePreviewKey L k m)) = [loadSampleEmailCmd (email m)]"
    have "engineInv (m\<lparr>view := stateLoading\<rparr>, [loadSampleEmailCmd (email m)])"
      using assms by (simp add: inv_view_upd) (simp add: engineInv_def)
    from inv_moved [OF a(1) this] show ?thesis by (simp add: o a(2))
  qed
qed

lemma inv_review:
  assumes "engineInv (m, out)" "view m = stateReview"
  shows "engineInv (fst (handleReviewKey L k m), out @ issued (snd (handleReviewKey L k m)))"
proof -
  have o: "out = []" using engineInv_idle [OF assms(1)] assms(2) by simp
  have i: "0 \<le> currentEmail m" "hasActions m \<longrightarrow> validIndex m"
    using assms(1) by (simp_all add: engineInv_def)
  from review_key [OF assms(2), of L k] show ?thesis
  proof (elim disjE conjE)
    assume "core (fst (handleReviewKey L k m)) = core m" "issued (snd (handleReviewKey L k m)) = []"
    then show ?thesis using assms(1) by (simp add: inv_coreI)
  next
    assume a: "validIndex m"
      "core (fst (handleReviewKey L k m)) = (stateSubmittingAction, response m, currentAction m, currentEmail m)"
      "issued (snd (handleReviewKey L k m)) = [approveActionCmd (currentAction m) (currentActionID m)]"
    have "engineInv (m\<lparr>view := stateSubmittingAction\<rparr>, [approveActionCmd (currentAction m) (currentActionID m)])"
      using i a(1) by (simp add: inv_view_upd view_upd_facts)
    from inv_moved [OF a(2) this] show ?thesis by (simp add: o a(3))
  next
    assume a: "validIndex m"
      "core (fst (handleReviewKey L k m)) = (stateSubmittingAction, response m, currentAction m, currentEmail m)"
      "issued (snd (handleReviewKey L k m)) = [rejectActionCmd (currentAction m) (currentActionID m)]"
    have "engineInv (m\<lparr>view := stateSubmittingAction\<rparr>, [rejectActionCmd (currentAction m) (currentActionID m)])"
      using i a(1) by (simp add: inv_view_upd view_upd_facts)
    from inv_moved [OF a(2) this] show ?thesis by (simp add: o a(3))
  next
    assume a: "validIndex m"
      "core (fst (handleReviewKey L k m)) = (stateEditingPayload, response m, currentAction m, currentEmail m)"
      "issued (snd (handleReviewKey L k m)) = []"
    have "engineInv (m\<lparr>view := stateEditingPayload\<rparr>, [])"
      using i a(1) by (simp add: inv_view_upd)
    from inv_moved [OF a(2) this] show ?thesis by (simp add: o a(3))
  next
    assume a: "core (fst (handleReviewKey L k m)) = (stateError, response m, currentAction m, currentEmail m)"
      "issued (snd (handleReviewKey L k m)) = []"
    have "engineInv (m\<lparr>view := stateError\<rparr>, [])"
      using i by (simp add: inv_view_upd)
    from inv_moved [OF a(1) this] show ?thesis by (simp add: o a(2))
  qed
qed

lemma inv_payload:
  assumes "engineInv (m, out)" "view m = stateEditingPayload"
  shows "engineInv (fst (handlePayloadKey L k m), out @ issued (snd (handlePayloadKey L k m)))"
proof -
  have o: "out = []" using engineInv_idle [OF assms(1)] assms(2) by simp
  have i: "0 \<le> currentEmail m" "hasActions m \<longrightarrow> validIndex m" "validIndex m"
    using assms by (simp_all add: engineInv_def)
  from payload_key [OF assms(2), of L k] obtain v where
    v: "v \<in> {stateEditingPayload, statePromptGeneral, stateReview}"
      "core (fst (handlePayloadKey L k m)) = (v, response m, currentAction m, currentEmail m)"
      and e: "issued (snd (handlePayloadKey L k m)) = []"
    by blast
  have "engineInv (m\<lparr>view := v\<rparr>, [])"
    using i v(1) by (auto simp add: inv_view_upd)
  from inv_moved [OF v(2) this] show ?thesis by (simp add: o e)
qed

lemma inv_prompt:
  assumes "engineInv (m, out)" "view m = statePromptGeneral"
  shows "engineInv (fst (handlePromptKey L k m), out @ issued (snd (handlePromptKey L k m)))"
proof -
  have o: "out = []" using engineInv_idle [OF assms(1)] assms(2) by simp
  have i: "0 \<le> currentEmail m" "hasActions m \<longrightarrow> validIndex m" "validIndex m"
    using assms by (simp_all add: engineInv_def)
  from prompt_key [OF assms(2), of L k] show ?thesis
  proof (elim disjE conjE exE)
    assume "core (fst (handlePromptKey L k m)) = core m" "issued (snd (handlePromptKey L k m)) = []"
    then show ?thesis using assms(1) by (simp add: inv_coreI)
  next
    fix g
    assume a: "core (fst (handlePromptKey L k m)) = (stateSubmittingAction, response m, currentAction m, currentEmail m)"
      "issued (snd (handlePromptKey L k m)) = [modifyActionCmd (currentAction m) (currentActionID m) (pending m) g]"
    have "engineInv (m\<lparr>view := stateSubmittingAction\<rparr>,
             [modifyActionCmd (currentAction m) (currentActionID m) (pending m) g])"
      using i by (simp add: inv_view_upd view_upd_facts)
    from inv_moved [OF a(1) this] show ?thesis by (simp add: o a(2))
  qed
qed

lemma inv_key:
  assumes "engineInv (m, out)"
  shows "engineInv (fst (handleKeyMsg L k m), out @ issued (snd (handleKeyMsg L k m)))"
proof (cases "KeyType k = KeyCtrlC")
  case True
  then show ?thesis using assms by (simp add: handleKeyMsg_def issued_def)
next
  case nc: False
  show ?thesis
  proof (cases "viewUsesViewport m \<and> fst (handleViewportScroll L k m)")
    case True
    then have "handleKeyMsg L k m = (m\<lparr>viewport := viewportScroll L (KeyType k) (viewport m)\<rparr>, None)"
      using nc by (auto simp add: handleKeyMsg_def handleViewportScroll_def split: if_splits)
    then show ?thesis using assms
      by (simp add: issued_def inv_coreI [of _ m] core_def)
  next
    case ns: False
    have i: "0 \<le> currentEmail m" "hasActions m \<longrightarrow> validIndex m"
      using assms by (simp_all add: engineInv_def)
    show ?thesis
    proof (cases "view m")
      case statePreviewEmail
      then have "handleKeyMsg L k m = handlePreviewKey L k m"
        by (simp add: handleKeyMsg_def nc ns)
      then show ?thesis using inv_preview [OF assms statePreviewEmail] by simp
    next
      case stateReview
      then have "handleKeyMsg L k m = handleReviewKey L k m"
        by (simp add: handleKeyMsg_def nc ns)
      then show ?thesis using inv_review [OF assms stateReview] by simp
    next
      case stateEditingPayload
      then have "handleKeyMsg L k m = handlePayloadKey L k m"
        by (simp add: handleKeyMsg_def nc ns)
      then show ?thesis using inv_payload [OF assms stateEditingPayload] by simp
    next
      case statePromptGeneral
      then have "handleKeyMsg L k m = handlePromptKey L k m"
        by (simp add: handleKeyMsg_def nc ns)
      then show ?thesis using inv_prompt [OF assms statePromptGeneral] by simp
    next
      case stateSummary
      have o: "out = []" using engineInv_idle [OF assms] stateSummary by simp
      have h: "hasActions m" using assms stateSummary by (simp add: engineInv_def)
      show ?thesis
      proof (cases "KeyType k = KeyEnter")
        case False
        then show ?thesis using assms by (simp add: handleKeyMsg_def issued_def nc ns stateSummary)
      next
        case True
        then have e: "handleKeyMsg L k m = (setView L stateReview [] (m\<lparr>currentAction := 0\<rparr>), None)"
          by (simp add: handleKeyMsg_def nc ns stateSummary)
        have v: "validIndex (m\<lparr>currentAction := 0\<rparr>)" "hasActions (m\<lparr>currentAction := 0\<rparr>)"
          using h by (auto simp add: validIndex_def hasActions_def actionAt_def split: option.splits)
        have "engineInv (m\<lparr>currentAction := 0, view := stateReview\<rparr>, [])"
          using i(1) v by (simp add: inv_view_upd)
        then have "engineInv (setView L stateReview [] (m\<lparr>currentAction := 0\<rparr>), [])"
          by (rule inv_coreI [rotated]) (simp add: core_def setView_fields)
        then show ?thesis by (simp add: e o issued_def)
      qed
    next
      case stateDone
      have o: "out = []" using engineInv_idle [OF assms] stateDone by simp
      show ?thesis
      proof (cases "KeyType k = KeyEnter \<and> hasMoreEmails m")
        case False
        then have "fst (handleKeyMsg L k m) = m \<and> issued (snd (handleKeyMsg L k m)) = []"
          by (auto simp add: handleKeyMsg_def issued_def nc ns stateDone split: keyType.splits)
        then show ?thesis using assms by simp
      next
        case True
        then have lt: "wrapInt (currentEmail m + 1) < int (length (emails m))"
          by (simp add: hasMoreEmails_def)
        from True have e: "handleKeyMsg L k m
                             = (prepareEmail L (wrapInt (currentEmail m + 1)) m, None)"
          using lt by (simp add: handleKeyMsg_def prepareNextEmail_def Let_def nc ns stateDone)
        have "engineInv (prepareEmail L (wrapInt (currentEmail m + 1)) m, [])"
        proof (cases "wrapInt (currentEmail m + 1) < 0")
          case True
          then have "prepareEmail L (wrapInt (currentEmail m + 1)) m = m"
            by (simp add: prepareEmail_def)
          then show ?thesis using assms o by simp
        next
          case False
          then show ?thesis using lt i(1)
            by (simp add: prepareEmail_def engineInv_def setView_fields hasActions_def)
        qed
        then show ?thesis by (simp add: e o issued_def)
      qed
    next
      case stateError
      then have "fst (handleKeyMsg L k m) = m \<and> issued (snd (handleKeyMsg L k m)) = []"
        by (auto simp add: handleKeyMsg_def issued_def nc ns)
      then show ?thesis using assms by simp
    next
      case stateLoading
      then have "fst (handleKeyMsg L k m) = m \<and> issued (snd (handleKeyMsg L k m)) = []"
        by (auto simp add: handleKeyMsg_def issued_def nc ns)
      then show ?thesis using assms by simp
    next
      case stateSubmittingAction
      then have "fst (handleKeyMsg L k m) = m \<and> issued (snd (handleKeyMsg L k m)) = []"
        by (auto simp add: handleKeyMsg_def issued_def nc ns)
      then show ?thesis using assms by simp
    qed
  qed
qed

lemma inv_external:
  assumes "engineInv (m, out)" "external ev"
  shows "engineInv (fst (Update L ev m), out @ issued (snd (Update L ev m)))"
proof (cases ev)
  case (WindowSizeMsg w h)
  have "core (handleWindowSize L w h m) = core m"
    by (simp add: core_def handleWindowSize_def Let_def refreshViewport_fields)
  then show ?thesis using assms(1) WindowSizeMsg
    by (simp add: Update_def issued_def inv_coreI)
next
  case (KeyPress k)
  then show ?thesis using inv_key [OF assms(1), of L k] by (simp add: Update_def)
next
  case spinnerTickMsg
  then show ?thesis using assms(1) by (simp add: Update_def issued_def)
next
  case otherMsg
  then show ?thesis using assms(1) by (simp add: Update_def issued_def)
qed (use assms(2) in simp_all)

lemma inv_start: "engineInv (Init L samples fallback newAppModel, [])"
  by (simp add: Init_def prepareEmail_def engineInv_def setView_fields newAppModel_def
        hasActions_def Let_def)

lemma inv_fail:
  assumes "engineInv (m, out)"
  shows "engineInv (fst (fail L t m), [])"
proof -
  have "engineInv (m\<lparr>view := stateError\<rparr>, [])"
    using assms by (simp add: inv_view_upd) (simp add: engineInv_def)
  from inv_moved [OF core_fail this] show ?thesis .
qed

lemma inv_newEmail:
  assumes "engineInv (m, out)" "view m = stateLoading"
  shows "engineInv (fst (Update L (newEmailMsg e (Some r) None) m), [])"
proof -
  have z: "currentAction m = 0" "0 \<le> currentEmail m"
    using assms by (simp_all add: engineInv_def)
  let ?m1 = "m\<lparr>email := e, response := Some r\<rparr>"
  show ?thesis
  proof (cases "hasActions ?m1")
    case True
    then have v: "validIndex ?m1"
      using z by (simp add: hasActions_def validIndex_def actionAt_def)
    have "engineInv (?m1\<lparr>view := stateSummary\<rparr>, [])"
      using z v True by (simp add: inv_view_upd)
    then have "engineInv (setView L stateSummary [] ?m1, [])"
      by (rule inv_coreI [rotated]) (simp add: core_def setView_fields)
    then show ?thesis using True by (simp add: Update_def)
  next
    case False
    have "engineInv (?m1\<lparr>view := stateDone\<rparr>, [])"
      using z False by (simp add: inv_view_upd)
    then have "engineInv (setView L stateDone ''No actions to review.'' ?m1, [])"
      by (rule inv_coreI [rotated]) (simp add: core_def setView_fields)
    then show ?thesis using False by (simp add: Update_def)
  qed
qed

lemma storeAction_fields:
  "view (storeAction i a m) = view m"
  "currentAction (storeAction i a m) = currentAction m"
  "currentEmail (storeAction i a m) = currentEmail m"
  "hasActions (storeAction i a m) = hasActions m"
  "(actionAt (storeAction i a m) j = None) = (actionAt m j = None)"
  "validIndex (storeAction i a m) = validIndex m"
  by (simp_all add: storeAction_def hasActions_def actionAt_def validIndex_def
        split: option.splits)

lemma currentAction_upd_facts:
  "validIndex (m\<lparr>currentAction := j\<rparr>) = (actionAt m j \<noteq> None)"
  "hasActions (m\<lparr>currentAction := j\<rparr>) = hasActions m"
  by (simp_all add: validIndex_def actionAt_def hasActions_def)

lemma newEmail_no_cmd: "snd (Update L (newEmailMsg e (Some r) None) m) = None"
  by (simp add: Update_def Let_def)

lemma Update_actionUpdated:
  assumes "actionAt m i \<noteq> None"
  shows "Update L (actionUpdatedMsg i a None) m =
     (if actionAt m (i + 1) \<noteq> None then
        (setView L stateReview (successStyle L ''Action updated successfully.'')
           ((storeAction i a m)\<lparr>currentAction := i + 1\<rparr>), Some spinnerTick)
      else
        (setView L stateDone (successStyle L ''All actions reviewed.'') (storeAction i a m),
         Some spinnerTick))"
proof -
  have "(actionAt (storeAction i a m) (i + 1) \<noteq> None) = (actionAt m (i + 1) \<noteq> None)"
    by (simp only: storeAction_fields)
  then show ?thesis
    using assms by (simp add: Update_def Let_def)
qed

lemma inv_actionUpdated:
  assumes "engineInv (m, out)" "view m = stateSubmittingAction"
  shows "engineInv (fst (Update L (actionUpdatedMsg (currentAction m) a None) m),
           issued (snd (Update L (actionUpdatedMsg (currentAction m) a None) m)))"
proof -
  have z: "validIndex m" "0 \<le> currentEmail m"
    using assms by (simp_all add: engineInv_def)
  let ?i = "currentAction m"
  let ?m1 = "storeAction ?i a m"
  have s: "actionAt m ?i \<noteq> None"
    using z(1) by (simp add: validIndex_def)
  have v1: "validIndex ?m1"
    using z(1) by (simp add: storeAction_fields)
  show ?thesis
  proof (cases "actionAt m (?i + 1) \<noteq> None")
    case True
    then have t: "actionAt ?m1 (?i + 1) \<noteq> None"
      by (simp only: storeAction_fields not_False_eq_True)
    have "engineInv (?m1\<lparr>currentAction := ?i + 1, view := stateReview\<rparr>, [])"
      using t z(2)
      by (simp add: inv_view_upd currentAction_upd_facts storeAction_fields)
    then have "engineInv (setView L stateReview (successStyle L ''Action updated successfully.'')
                 (?m1\<lparr>currentAction := ?i + 1\<rparr>), [])"
      by (rule inv_coreI [rotated]) (simp add: core_def setView_fields)
    then show ?thesis
      by (simp only: Update_actionUpdated [OF s] True if_True fst_conv snd_conv)
         (simp add: issued_def)
  next
    case False
    have "engineInv (?m1\<lparr>view := stateDone\<rparr>, [])"
      using v1 z(2) by (simp add: inv_view_upd storeAction_fields)
    then have "engineInv (setView L stateDone (successStyle L ''All actions reviewed.'') ?m1, [])"
      by (rule inv_coreI [rotated]) (simp add: core_def setView_fields)
    then show ?thesis
      by (simp only: Update_actionUpdated [OF s] False if_False fst_conv snd_conv)
         (simp add: issued_def)
  qed
qed

lemma inv_complete:
  assumes "engineInv (m, out)" "c \<in> set out" "completion c ans = Some ev"
  shows "engineInv (fst (Update L ev m), remove1 c out @ issued (snd (Update L ev m)))"
proof -
  from assms(1,2) have o: "out = [c]" "awaited m c"
    by (auto simp add: engineInv_def split: list.splits)
  have f: ?thesis if "ev = newEmailMsg e r (Some t) \<or> ev = actionUpdatedMsg i a (Some t)" for e r t i a
    using that inv_fail [OF assms(1), of L t] by (auto simp add: Update_def o fail_fields issued_def)
  have n: ?thesis if "ev = newEmailMsg e (Some r) None" "view m = stateLoading" for e r
    using that inv_newEmail [OF assms(1) that(2), of L e r]
    by (simp add: o newEmail_no_cmd issued_def)
  have u: ?thesis if "ev = actionUpdatedMsg (currentAction m) a None" "view m = stateSubmittingAction" for a
    using that inv_actionUpdated [OF assms(1) that(2), of L a] by (simp add: o)
  show ?thesis
    using assms(3) o(2) f n u
    by (cases c; cases ans) auto
qed

lemma reachable_engineInv:
  "reachable L samples fallback s \<Longrightarrow> engineInv s"
proof (induction rule: reachable.induct)
  case start
  show ?case by (rule inv_start)
next
  case (event m out ev)
  then show ?case by (simp add: inv_external)
next
  case (complete m out c ans ev)
  then show ?case by (simp add: inv_complete)
qed

lemma validIndex_range:
  "validIndex m \<longleftrightarrow>
     (\<exists>r. response m = Some r \<and> 0 \<le> currentAction m
          \<and> currentAction m < int (length (ProposedActions r)))"
  by (auto simp add: validIndex_def actionAt_def split: option.splits)

section \<open>The email index of a run\<close>

text \<open>
  The sample list never changes, and the email index is only ever set by
  \<open>prepareEmail\<close>, to a valid index of the list. So in every state of a run the email
  index is a valid index, and, the length of a slice being an \<open>int\<close>, it is below the
  largest \<open>int\<close>: the sum \<open>currentEmail + 1\<close> of \<open>hasMoreEmails\<close> and
  \<open>prepareNextEmail\<close> does not wrap around in a run.
\<close>

lemma fail_emails:
  "emails (fst (fail L t m)) = emails m" "currentEmail (fst (fail L t m)) = currentEmail m"
  by (simp_all add: fail_def setView_fields)

lemma storeAction_emails:
  "emails (storeAction i a m) = emails m"
  by (simp add: storeAction_def split: option.splits)

lemma handler_emails:
  "emails (fst (handlePreviewKey L k m)) = emails m
   \<and> currentEmail (fst (handlePreviewKey L k m)) = currentEmail m"
  "emails (fst (handleReviewKey L k m)) = emails m
   \<and> currentEmail (fst (handleReviewKey L k m)) = currentEmail m"
  "emails (fst (handlePayloadKey L k m)) = emails m
   \<and> currentEmail (fst (handlePayloadKey L k m)) = currentEmail m"
  "emails (fst (handlePromptKey L k m)) = emails m
   \<and> currentEmail (fst (handlePromptKey L k m)) = currentEmail m"
  by (simp_all add: handlePreviewKey_def handleReviewKey_def handlePayloadKey_def
        handlePromptKey_def beginEmailSubmission_def beginActionUpdate_def
        submitModifiedAction_def enterPayloadEditor_def fail_emails setView_fields Let_def
        split: keyType.splits option.splits sum.splits prod.splits)

lemma prepareEmail_emails:
  "emails (prepareEmail L i m) = emails m"
  "currentEmail (prepareEmail L i m) = currentEmail m
   \<or> (0 \<le> currentEmail (prepareEmail L i m)
       \<and> currentEmail (prepareEmail L i m) < int (length (emails m)))"
  by (simp_all add: prepareEmail_def setView_fields)

lemma key_emails:
  "emails (fst (handleKeyMsg L k m)) = emails m"
  "currentEmail (fst (handleKeyMsg L k m)) = currentEmail m
   \<or> (0 \<le> currentEmail (fst (handleKeyMsg L k m))
       \<and> currentEmail (fst (handleKeyMsg L k m)) < int (length (emails m)))"
  by (simp_all add: handleKeyMsg_def handleViewportScroll_def handler_emails setView_fields
        prepareNextEmail_def prepareEmail_emails Let_def
        split: viewState.splits keyType.splits)

lemma Update_emails:
  "emails (fst (Update L ev m)) = emails m"
  "currentEmail (fst (Update L ev m)) = currentEmail m
   \<or> (0 \<le> currentEmail (fst (Update L ev m))
       \<and> currentEmail (fst (Update L ev m)) < int (length (emails m)))"
  by (simp_all add: Update_def handleWindowSize_def refreshViewport_fields key_emails
        fail_emails setView_fields storeAction_emails storeAction_fields Let_def
        split: msg.splits option.splits)

lemma reachable_email_index:
  assumes "reachable L samples fallback s"
  shows "0 \<le> currentEmail (fst s) \<and> currentEmail (fst s) < int (length (emails (fst s)))"
  using assms
proof (induction rule: reachable.induct)
  case start
  show ?case
    by (simp add: Init_def prepareEmail_def setView_fields newAppModel_def Let_def)
next
  case (event m out ev)
  then show ?case using Update_emails [of L ev m] by auto
next
  case (complete m out c ans ev)
  then show ?case using Update_emails [of L ev m] by auto
qed

lemma reachable_emails:
  assumes "reachable L samples fallback s"
  shows "emails (fst s) = (if length samples = 0 then [fallback] else samples)"
  using assms
proof (induction rule: reachable.induct)
  case start
  show ?case
    by (simp add: Init_def prepareEmail_emails Let_def)
next
  case (event m out ev)
  then show ?case by (simp add: Update_emails)
next
  case (complete m out c ans ev)
  then show ?case by (simp add: Update_emails)
qed

lemma reachable_below_MaxInt64:
  assumes "reachable L samples fallback (m, out)" and "int (length samples) \<le> MaxInt64"
  shows "0 \<le> currentEmail m" and "currentEmail m < MaxInt64"
proof -
  from reachable_email_index [OF assms(1)]
  have i: "0 \<le> currentEmail m" "currentEmail m < int (length (emails m))"
    by simp_all
  from reachable_emails [OF assms(1)]
  have "int (length (emails m)) \<le> MaxInt64"
    using assms(2) by (simp add: MaxInt64_def split: if_splits)
  with i show "0 \<le> currentEmail m" and "currentEmail m < MaxInt64"
    by simp_all
qed

text \<open>
  Outside the runs, at the largest \<open>int\<close>, the sum wraps around to the smallest:
  \<open>hasMoreEmails\<close> answers true, \<open>prepareNextEmail\<close> hands the negative index to
  \<open>prepareEmail\<close>, which rejects it, and the confirm key on the Done screen does nothing.
\<close>

lemma done_confirm_at_MaxInt64:
  assumes "view m = stateDone" and "KeyType k = KeyEnter" and "currentEmail m = MaxInt64"
  shows "hasMoreEmails m" and "handleKeyMsg L k m = (m, None)"
proof -
  have w: "wrapInt (currentEmail m + 1) = - (2 ^ 63)"
    using assms(3) by (simp add: wrapInt_MaxInt64)
  show h: "hasMoreEmails m"
    by (simp add: hasMoreEmails_def w)
  have "prepareNextEmail L m = m"
    by (simp add: prepareNextEmail_def prepareEmail_def Let_def w)
  then show "handleKeyMsg L k m = (m, None)"
    using assms(1,2) h by (simp add: handleKeyMsg_def noScroll)
qed

section \<open>A run of the event loop\<close>

text \<open>
  The states of the example run are reachable: the first email is submitted and answered
  with two proposed actions, both are approved, and the second email is loaded and
  submitted.
\<close>

lemma loadingModel_reachable:
  "reachable plainLib [mailA, mailB] mailA (loadingModel, [loadSampleEmailCmd mailA])"
proof -
  have s: "reachable plainLib [mailA, mailB] mailA (startModel, [])"
    unfolding startModel_def by (rule reachable.start)
  have u: "snd (Update plainLib (KeyPress enterKey) startModel)
             = Some (Batch [spinnerTick, loadSampleEmailCmd mailA])"
    by (simp add: Update_def handleKeyMsg_def enterKey_def noScroll startModel_fields
          handlePreviewKey_def beginEmailSubmission_def)
  from reachable.event [OF s, of "KeyPress enterKey"] show ?thesis
    by (simp add: u issued_def loadingModel_def)
qed

lemma loadingModel_fields:
  "view loadingModel = stateLoading" "currentAction loadingModel = 0"
  "response loadingModel = None" "currentEmail loadingModel = 0"
  by (simp_all add: loadingModel_def Update_def handleKeyMsg_def enterKey_def noScroll
        startModel_fields handlePreviewKey_def beginEmailSubmission_def setView_fields)

lemma summaryReached_fields:
  "view summaryReached = stateSummary" "currentAction summaryReached = 0"
  "response summaryReached = Some twoActionResponse"
  "snd (Update plainLib (newEmailMsg mailA (Some twoActionResponse) None) loadingModel) = None"
  by (simp_all add: summaryReached_def Update_def Let_def hasActions_def twoActionResponse_def
        setView_fields loadingModel_fields)

lemma reviewReached_fields:
  "view reviewReached = stateReview" "currentAction reviewReached = 0"
  "response reviewReached = Some twoActionResponse"
  "snd (Update plainLib (KeyPress enterKey) summaryReached) = None"
  by (simp_all add: reviewReached_def Update_def handleKeyMsg_def enterKey_def noScroll
        summaryReached_fields setView_fields)

lemma reviewReached_reachable:
  "reachable plainLib [mailA, mailB] mailA (reviewReached, [])"
proof -
  have c: "completion (loadSampleEmailCmd mailA) (EmailProcessed twoActionResponse)
             = Some (newEmailMsg mailA (Some twoActionResponse) None)"
    by simp
  from reachable.complete [OF loadingModel_reachable _ c]
  have s: "reachable plainLib [mailA, mailB] mailA (summaryReached, [])"
    by (simp add: summaryReached_fields(4) issued_def summaryReached_def)
  from reachable.event [OF s, of "KeyPress enterKey"] show ?thesis
    by (simp add: reviewReached_fields(4) issued_def reviewReached_def)
qed

lemma loadingModel_fields2:
  "emails loadingModel = [mailA, mailB]" "email loadingModel = mailA"
  by (simp_all add: loadingModel_def Update_def handleKeyMsg_def enterKey_def noScroll
        startModel_fields handlePreviewKey_def beginEmailSubmission_def setView_fields)

lemma summaryReached_fields2:
  "emails summaryReached = [mailA, mailB]" "currentEmail summaryReached = 0"
  by (simp_all add: summaryReached_def Update_def Let_def hasActions_def twoActionResponse_def
        setView_fields loadingModel_fields loadingModel_fields2)

lemma reviewReached_fields2:
  "emails reviewReached = [mailA, mailB]" "currentEmail reviewReached = 0"
  by (simp_all add: reviewReached_def Update_def handleKeyMsg_def enterKey_def noScroll
        summaryReached_fields summaryReached_fields2 setView_fields)

lemma approve_step:
  assumes "view m = stateReview" "response m = Some r" "0 \<le> currentAction m"
    "currentAction m < int (length (ProposedActions r))"
  shows "Update plainLib (KeyPress (runeKey ''a'')) m =
           (setView plainLib stateSubmittingAction ''Approving action...'' m,
            Some (Batch [spinnerTick,
              approveActionCmd (currentAction m)
                (ActionID (ProposedActions r ! nat (currentAction m)))]))"
  using assms
  by (simp add: Update_def handleKeyMsg_def runeKey_def noScroll handleReviewKey_def
        currentActionRef_def actionAt_def ToLower_examples beginActionUpdate_def)

lemma submittingFirst_fields:
  "view submittingFirst = stateSubmittingAction" "currentAction submittingFirst = 0"
  "response submittingFirst = Some twoActionResponse"
  "emails submittingFirst = [mailA, mailB]" "currentEmail submittingFirst = 0"
  "issued (snd (Update plainLib (KeyPress (runeKey ''a'')) reviewReached))
     = [approveActionCmd 0 ''act-1'']"
proof -
  have l: "0 \<le> currentAction reviewReached"
    "currentAction reviewReached < int (length (ProposedActions twoActionResponse))"
    by (simp_all add: reviewReached_fields twoActionResponse_def)
  note a = approve_step [OF reviewReached_fields(1,3) l]
  show "view submittingFirst = stateSubmittingAction" "currentAction submittingFirst = 0"
    "response submittingFirst = Some twoActionResponse"
    "emails submittingFirst = [mailA, mailB]" "currentEmail submittingFirst = 0"
    by (simp_all add: submittingFirst_def a setView_fields reviewReached_fields
          reviewReached_fields2)
  show "issued (snd (Update plainLib (KeyPress (runeKey ''a'')) reviewReached))
     = [approveActionCmd 0 ''act-1'']"
    by (simp add: a issued_def reviewReached_fields twoActionResponse_def draftAction_def
          zeroAction_def)
qed

lemma reviewSecond_fields:
  "view reviewSecond = stateReview" "currentAction reviewSecond = 1"
  "response reviewSecond =
     Some (twoActionResponse\<lparr>ProposedActions := [approvedAction, eventAction]\<rparr>)"
  "emails reviewSecond = [mailA, mailB]" "currentEmail reviewSecond = 0"
  "issued (snd (Update plainLib (actionUpdatedMsg 0 approvedAction None) submittingFirst)) = []"
proof -
  have a: "actionAt submittingFirst 0 \<noteq> None" "actionAt submittingFirst (0 + 1) \<noteq> None"
    by (simp_all add: actionAt_def submittingFirst_fields twoActionResponse_def)
  note u = Update_actionUpdated [OF a(1), of plainLib approvedAction]
  have s: "response (storeAction 0 approvedAction submittingFirst) =
     Some (twoActionResponse\<lparr>ProposedActions := [approvedAction, eventAction]\<rparr>)"
    by (simp add: storeAction_def submittingFirst_fields) (simp add: twoActionResponse_def)
  have e: "emails (storeAction 0 approvedAction submittingFirst) = [mailA, mailB]"
    by (simp add: storeAction_def submittingFirst_fields)
  show "view reviewSecond = stateReview" "currentAction reviewSecond = 1"
    "response reviewSecond =
     Some (twoActionResponse\<lparr>ProposedActions := [approvedAction, eventAction]\<rparr>)"
    "emails reviewSecond = [mailA, mailB]" "currentEmail reviewSecond = 0"
    "issued (snd (Update plainLib (actionUpdatedMsg 0 approvedAction None) submittingFirst)) = []"
    using a(2)
    by (simp_all add: reviewSecond_def u setView_fields s e storeAction_fields
          submittingFirst_fields issued_def)
qed

lemma submittingSecond_fields:
  "view submittingSecond = stateSubmittingAction" "currentAction submittingSecond = 1"
  "response submittingSecond =
     Some (twoActionResponse\<lparr>ProposedActions := [approvedAction, eventAction]\<rparr>)"
  "emails submittingSecond = [mailA, mailB]" "currentEmail submittingSecond = 0"
  "issued (snd (Update plainLib (KeyPress (runeKey ''a'')) reviewSecond))
     = [approveActionCmd 1 ''act-2'']"
proof -
  have l: "0 \<le> currentAction reviewSecond"
    "currentAction reviewSecond
       < int (length (ProposedActions
           (twoActionResponse\<lparr>ProposedActions := [approvedAction, eventAction]\<rparr>)))"
    by (simp_all add: reviewSecond_fields)
  note a = approve_step [OF reviewSecond_fields(1,3) l]
  show "view submittingSecond = stateSubmittingAction" "currentAction submittingSecond = 1"
    "response submittingSecond =
       Some (twoActionResponse\<lparr>ProposedActions := [approvedAction, eventAction]\<rparr>)"
    "emails submittingSecond = [mailA, mailB]" "currentEmail submittingSecond = 0"
    by (simp_all add: submittingSecond_def a setView_fields reviewSecond_fields)
  show "issued (snd (Update plainLib (KeyPress (runeKey ''a'')) reviewSecond))
     = [approveActionCmd 1 ''act-2'']"
    by (simp add: a issued_def reviewSecond_fields eventAction_def zeroAction_def)
qed

lemma doneReached_fields:
  "view doneReached = stateDone" "currentAction doneReached = 1"
  "emails doneReached = [mailA, mailB]" "currentEmail doneReached = 0"
  "issued (snd (Update plainLib (actionUpdatedMsg 1 eventAction None) submittingSecond)) = []"
proof -
  have a: "actionAt submittingSecond 1 \<noteq> None" "actionAt submittingSecond (1 + 1) = None"
    by (simp_all add: actionAt_def submittingSecond_fields)
  note u = Update_actionUpdated [OF a(1), of plainLib eventAction]
  have e: "emails (storeAction 1 eventAction submittingSecond) = [mailA, mailB]"
    by (simp add: storeAction_def submittingSecond_fields)
  show "view doneReached = stateDone" "currentAction doneReached = 1"
    "emails doneReached = [mailA, mailB]" "currentEmail doneReached = 0"
    "issued (snd (Update plainLib (actionUpdatedMsg 1 eventAction None) submittingSecond)) = []"
    using a(2)
    by (simp_all add: doneReached_def u setView_fields e storeAction_fields
          submittingSecond_fields issued_def)
qed

lemma previewSecond_fields:
  "view previewSecond = statePreviewEmail" "currentAction previewSecond = 0"
  "email previewSecond = mailB" "response previewSecond = None"
  "issued (snd (Update plainLib (KeyPress enterKey) doneReached)) = []"
proof -
  have h: "hasMoreEmails doneReached"
    by (simp add: hasMoreEmails_def doneReached_fields wrapInt_examples)
  have u: "Update plainLib (KeyPress enterKey) doneReached
             = (prepareEmail plainLib 1 doneReached, None)"
    using h by (simp add: Update_def handleKeyMsg_def enterKey_def noScroll doneReached_fields
          prepareNextEmail_def Let_def wrapInt_examples)
  show "view previewSecond = statePreviewEmail" "currentAction previewSecond = 0"
    "email previewSecond = mailB" "response previewSecond = None"
    "issued (snd (Update plainLib (KeyPress enterKey) doneReached)) = []"
    by (simp_all add: previewSecond_def u prepareEmail_def doneReached_fields setView_fields
          issued_def)
qed

lemma loadingSecond_fields:
  "issued (snd (Update plainLib (KeyPress enterKey) previewSecond)) = [loadSampleEmailCmd mailB]"
  by (simp add: Update_def handleKeyMsg_def enterKey_def noScroll previewSecond_fields
        handlePreviewKey_def beginEmailSubmission_def issued_def)

lemma loadingSecond_reachable:
  "reachable plainLib [mailA, mailB] mailA (loadingSecond, [loadSampleEmailCmd mailB])"
proof -
  note r0 = reviewReached_reachable
  from reachable.event [OF r0, of "KeyPress (runeKey ''a'')"]
  have r1: "reachable plainLib [mailA, mailB] mailA (submittingFirst, [approveActionCmd 0 ''act-1''])"
    by (simp add: submittingFirst_fields(6) submittingFirst_def)
  have c1: "completion (approveActionCmd 0 ''act-1'') (ActionReturned approvedAction)
              = Some (actionUpdatedMsg 0 approvedAction None)"
    by simp
  from reachable.complete [OF r1 _ c1]
  have r2: "reachable plainLib [mailA, mailB] mailA (reviewSecond, [])"
    by (simp add: reviewSecond_fields(6) reviewSecond_def)
  from reachable.event [OF r2, of "KeyPress (runeKey ''a'')"]
  have r3: "reachable plainLib [mailA, mailB] mailA (submittingSecond, [approveActionCmd 1 ''act-2''])"
    by (simp add: submittingSecond_fields(6) submittingSecond_def)
  have c2: "completion (approveActionCmd 1 ''act-2'') (ActionReturned eventAction)
              = Some (actionUpdatedMsg 1 eventAction None)"
    by simp
  from reachable.complete [OF r3 _ c2]
  have r4: "reachable plainLib [mailA, mailB] mailA (doneReached, [])"
    by (simp add: doneReached_fields(5) doneReached_def)
  from reachable.event [OF r4, of "KeyPress enterKey"]
  have r5: "reachable plainLib [mailA, mailB] mailA (previewSecond, [])"
    by (simp add: previewSecond_fields(5) previewSecond_def)
  from reachable.event [OF r5, of "KeyPress enterKey"]
  show ?thesis
    by (simp add: loadingSecond_fields loadingSecond_def)
qed

section \<open>The action index\<close>

text \<open>
  Claim C3. In every reachable state of the event loop: when the successful completion of
  an outstanding submit-email command is processed, the new Submission Result is installed
  and the action index is 0 right afterwards; and whenever a Submission Result with at
  least one proposed action is present, the action index is a valid index into its
  actions. (The handler of the completion does not assign the index itself; the index is 0
  because \<open>prepareEmail\<close> reset it before the email could be submitted, whatever a
  previous review left in it.)
\<close>

theorem action_index_reset_and_valid:
  assumes "reachable L samples fallback (m, out)"
  shows "(\<forall>c r ev. c \<in> set out \<longrightarrow> completion c (EmailProcessed r) = Some ev \<longrightarrow>
            response (fst (Update L ev m)) = Some r
            \<and> currentAction (fst (Update L ev m)) = 0)
       \<and> (\<forall>r. response m = Some r \<longrightarrow> ProposedActions r \<noteq> [] \<longrightarrow>
            0 \<le> currentAction m \<and> currentAction m < int (length (ProposedActions r)))"
proof -
  have inv: "engineInv (m, out)"
    using reachable_engineInv [OF assms] .
  have a: "response (fst (Update L ev m)) = Some r \<and> currentAction (fst (Update L ev m)) = 0"
    if "c \<in> set out" "completion c (EmailProcessed r) = Some ev" for c r ev
  proof -
    from inv that(1) have o: "awaited m c"
      by (auto simp add: engineInv_def split: list.splits)
    from that(2) obtain e where c: "c = loadSampleEmailCmd e" "ev = newEmailMsg e (Some r) None"
      by (cases c) auto
    from o c inv have z: "currentAction m = 0"
      by (simp add: engineInv_def)
    show ?thesis
      by (simp add: c Update_def Let_def setView_fields z)
  qed
  have b: "0 \<le> currentAction m \<and> currentAction m < int (length (ProposedActions r))"
    if "response m = Some r" "ProposedActions r \<noteq> []" for r
  proof -
    have "hasActions m" using that by (simp add: hasActions_def)
    with inv have "validIndex m" by (simp add: engineInv_def)
    with that(1) show ?thesis by (simp add: validIndex_range)
  qed
  from a b show ?thesis by blast
qed

text \<open>
  In the example run the first review ends with the action index at 1; the index is 0
  again when the Submission Result of the second email is installed.
\<close>

theorem action_index_reset_and_valid_witness:
  "reachable plainLib [mailA, mailB] mailA (loadingSecond, [loadSampleEmailCmd mailB])
   \<and> currentAction doneReached = 1
   \<and> loadSampleEmailCmd mailB \<in> set [loadSampleEmailCmd mailB]
   \<and> completion (loadSampleEmailCmd mailB) (EmailProcessed oneActionResponse)
       = Some (newEmailMsg mailB (Some oneActionResponse) None)
   \<and> response (fst (Update plainLib (newEmailMsg mailB (Some oneActionResponse) None) loadingSecond))
       = Some oneActionResponse
   \<and> currentAction (fst (Update plainLib (newEmailMsg mailB (Some oneActionResponse) None) loadingSecond)) = 0"
  using action_index_reset_and_valid [OF loadingSecond_reachable] loadingSecond_reachable
  by (simp add: doneReached_fields)

text \<open>
  Claim C10. In every reachable state whose screen is Review, EditingPayload or
  PromptGeneral, a Submission Result is present and the action index is a valid index
  into its actions, so the position shown on the Review screen, the index plus one, lies
  between 1 and the number of actions; and every gateway command a key issues from such
  a screen is an approve, reject or modify command that carries the current index and the
  identifier of the action stored at that index.
\<close>

theorem review_screens_have_current_action:
  assumes "reachable L samples fallback (m, out)"
    and "view m \<in> {stateReview, stateEditingPayload, statePromptGeneral}"
  shows "\<exists>r. response m = Some r
          \<and> 0 \<le> currentAction m \<and> currentAction m < int (length (ProposedActions r))
          \<and> 1 \<le> currentAction m + 1 \<and> currentAction m + 1 \<le> int (length (ProposedActions r))
          \<and> (\<forall>k c. c \<in> set (issued (snd (handleKeyMsg L k m))) \<longrightarrow>
                (c = approveActionCmd (currentAction m)
                       (ActionID (ProposedActions r ! nat (currentAction m)))
                 \<or> c = rejectActionCmd (currentAction m)
                       (ActionID (ProposedActions r ! nat (currentAction m)))
                 \<or> (\<exists>g. c = modifyActionCmd (currentAction m)
                       (ActionID (ProposedActions r ! nat (currentAction m))) (pending m) g)))"
proof -
  have inv: "engineInv (m, out)"
    using reachable_engineInv [OF assms(1)] .
  with assms(2) have "validIndex m"
    by (auto simp add: engineInv_def)
  then obtain r where r: "response m = Some r" "0 \<le> currentAction m"
    "currentAction m < int (length (ProposedActions r))"
    by (auto simp add: validIndex_range)
  have id: "currentActionID m = ActionID (ProposedActions r ! nat (currentAction m))"
    using r by (simp add: currentActionID_def currentActionRef_def actionAt_def)
  have "c = approveActionCmd (currentAction m) (currentActionID m)
        \<or> c = rejectActionCmd (currentAction m) (currentActionID m)
        \<or> (\<exists>g. c = modifyActionCmd (currentAction m) (currentActionID m) (pending m) g)"
    if c: "c \<in> set (issued (snd (handleKeyMsg L k m)))" for k c
  proof (cases "KeyType k = KeyCtrlC \<or> (viewUsesViewport m \<and> fst (handleViewportScroll L k m))")
    case True
    then have "issued (snd (handleKeyMsg L k m)) = []"
      by (auto simp add: handleKeyMsg_def issued_def)
    with c show ?thesis by simp
  next
    case False
    then have nc: "KeyType k \<noteq> KeyCtrlC"
      and ns: "\<not> (viewUsesViewport m \<and> fst (handleViewportScroll L k m))"
      by blast+
    from assms(2) consider "view m = stateReview" | "view m = stateEditingPayload"
      | "view m = statePromptGeneral" by blast
    then show ?thesis
    proof cases
      case 1
      then have "handleKeyMsg L k m = handleReviewKey L k m"
        by (simp add: handleKeyMsg_def nc ns)
      with c review_key [OF 1, of L k] show ?thesis by auto
    next
      case 2
      then have "handleKeyMsg L k m = handlePayloadKey L k m"
        by (simp add: handleKeyMsg_def nc ns)
      with c payload_key [OF 2, of L k] show ?thesis by auto
    next
      case 3
      then have "handleKeyMsg L k m = handlePromptKey L k m"
        by (simp add: handleKeyMsg_def nc ns)
      with c prompt_key [OF 3, of L k] show ?thesis by auto
    qed
  qed
  with r id show ?thesis by auto
qed

theorem review_screens_have_current_action_witness:
  "reachable plainLib [mailA, mailB] mailA (reviewReached, [])
   \<and> view reviewReached \<in> {stateReview, stateEditingPayload, statePromptGeneral}
   \<and> (\<exists>r. response reviewReached = Some r
         \<and> 0 \<le> currentAction reviewReached
         \<and> currentAction reviewReached < int (length (ProposedActions r))
         \<and> (\<forall>c. c \<in> set (issued (snd (handleKeyMsg plainLib (runeKey ''a'') reviewReached))) \<longrightarrow>
                (c = approveActionCmd (currentAction reviewReached)
                       (ActionID (ProposedActions r ! nat (currentAction reviewReached)))
                 \<or> c = rejectActionCmd (currentAction reviewReached)
                       (ActionID (ProposedActions r ! nat (currentAction reviewReached)))
                 \<or> (\<exists>g. c = modifyActionCmd (currentAction reviewReached)
                       (ActionID (ProposedActions r ! nat (currentAction reviewReached)))
                       (pending reviewReached) g))))
   \<and> issued (snd (handleKeyMsg plainLib (runeKey ''a'') reviewReached)) = [approveActionCmd 0 ''act-1'']"
proof -
  have v: "view reviewReached \<in> {stateReview, stateEditingPayload, statePromptGeneral}"
    by (simp add: reviewReached_fields)
  have a: "issued (snd (handleKeyMsg plainLib (runeKey ''a'') reviewReached))
            = [approveActionCmd 0 ''act-1'']"
    by (simp add: handleKeyMsg_def runeKey_def noScroll reviewReached_fields handleReviewKey_def
          currentActionRef_def actionAt_def twoActionResponse_def ToLower_examples
          beginActionUpdate_def issued_def draftAction_def zeroAction_def)
  from review_screens_have_current_action [OF reviewReached_reachable v]
    reviewReached_reachable v a
  show ?thesis by blast
qed

section \<open>Completing every action\<close>

text \<open>
  In the event loop a successful completion of an outstanding action command is
  \<open>completeNext\<close>: the command carries the index that is current when it completes.
\<close>

lemma completion_is_completeNext:
  assumes "reachable L samples fallback (m, out)" and "c \<in> set out"
    and "completion c (ActionReturned a) = Some ev"
  shows "fst (Update L ev m) = completeNext L a m"
proof -
  from reachable_engineInv [OF assms(1)] assms(2) have w: "awaited m c"
    by (auto simp add: engineInv_def split: list.splits)
  from assms(3) w have "ev = actionUpdatedMsg (currentAction m) a None"
    by (cases c) auto
  then show ?thesis by (simp add: completeNext_def)
qed

lemma completeNext_step:
  assumes "response m = Some r" "0 \<le> currentAction m"
    "currentAction m < int (length (ProposedActions r))"
  shows "response (completeNext L a m) =
           Some (r\<lparr>ProposedActions := (ProposedActions r)[nat (currentAction m) := a]\<rparr>)"
    and "currentAction m + 1 < int (length (ProposedActions r)) \<Longrightarrow>
           view (completeNext L a m) = stateReview
           \<and> currentAction (completeNext L a m) = currentAction m + 1"
    and "\<not> currentAction m + 1 < int (length (ProposedActions r)) \<Longrightarrow>
           view (completeNext L a m) = stateDone
           \<and> currentAction (completeNext L a m) = currentAction m"
proof -
  have v: "actionAt m (currentAction m) \<noteq> None"
    using assms by (simp add: actionAt_def)
  have n: "(actionAt m (currentAction m + 1) \<noteq> None) =
             (currentAction m + 1 < int (length (ProposedActions r)))"
    using assms by (simp add: actionAt_def)
  have s: "response (storeAction (currentAction m) a m) =
             Some (r\<lparr>ProposedActions := (ProposedActions r)[nat (currentAction m) := a]\<rparr>)"
    using assms(1) by (simp add: storeAction_def)
  show "response (completeNext L a m) =
           Some (r\<lparr>ProposedActions := (ProposedActions r)[nat (currentAction m) := a]\<rparr>)"
    unfolding completeNext_def Update_actionUpdated [OF v] n
    by (simp add: setView_fields s)
  show "currentAction m + 1 < int (length (ProposedActions r)) \<Longrightarrow>
           view (completeNext L a m) = stateReview
           \<and> currentAction (completeNext L a m) = currentAction m + 1"
    unfolding completeNext_def Update_actionUpdated [OF v] n
    by (simp add: setView_fields)
  show "\<not> currentAction m + 1 < int (length (ProposedActions r)) \<Longrightarrow>
           view (completeNext L a m) = stateDone
           \<and> currentAction (completeNext L a m) = currentAction m"
    unfolding completeNext_def Update_actionUpdated [OF v] n
    by (simp add: setView_fields storeAction_fields)
qed

lemma completeAll_snoc: "completeAll L m (bs @ [b]) = completeNext L b (completeAll L m bs)"
  by (induction bs arbitrary: m) simp_all

lemma indexAdvances_snoc:
  "indexAdvances L m (bs @ [b]) =
     indexAdvances L m bs
     + (if currentAction (completeNext L b (completeAll L m bs))
           = currentAction (completeAll L m bs) + 1 then 1 else 0)"
  by (induction bs arbitrary: m) simp_all

lemma review_prefix:
  assumes "response m = Some r" "currentAction m = 0" "view m = stateReview"
    and "length bs < length (ProposedActions r)"
  shows "response (completeAll L m bs) =
           Some (r\<lparr>ProposedActions := bs @ drop (length bs) (ProposedActions r)\<rparr>)
       \<and> view (completeAll L m bs) = stateReview
       \<and> currentAction (completeAll L m bs) = int (length bs)
       \<and> indexAdvances L m bs = length bs"
  using assms(4)
proof (induction bs rule: rev_induct)
  case Nil
  then show ?case using assms(1-3) by simp
next
  case (snoc b bs)
  let ?mk = "completeAll L m bs"
  let ?rk = "r\<lparr>ProposedActions := bs @ drop (length bs) (ProposedActions r)\<rparr>"
  from snoc have ih: "response ?mk = Some ?rk" "view ?mk = stateReview"
    "currentAction ?mk = int (length bs)" "indexAdvances L m bs = length bs"
    by simp_all
  have len: "length (ProposedActions ?rk) = length (ProposedActions r)"
    using snoc.prems by simp
  have p: "0 \<le> currentAction ?mk" "currentAction ?mk < int (length (ProposedActions ?rk))"
    "currentAction ?mk + 1 < int (length (ProposedActions ?rk))"
    using snoc.prems by (simp_all add: ih(3))
  note st = completeNext_step [OF ih(1) p(1,2), of L b]
  have upd: "(bs @ drop (length bs) (ProposedActions r))[length bs := b]
               = (bs @ [b]) @ drop (length (bs @ [b])) (ProposedActions r)"
  proof -
    have "drop (length bs) (ProposedActions r) =
            ProposedActions r ! length bs # drop (Suc (length bs)) (ProposedActions r)"
      using snoc.prems by (simp add: Cons_nth_drop_Suc)
    then show ?thesis by (simp add: list_update_length)
  qed
  have "response (completeAll L m (bs @ [b])) =
          Some (r\<lparr>ProposedActions := (bs @ [b]) @ drop (length (bs @ [b])) (ProposedActions r)\<rparr>)"
    using st(1) upd by (simp add: completeAll_snoc ih(3))
  moreover have "view (completeAll L m (bs @ [b])) = stateReview"
    "currentAction (completeAll L m (bs @ [b])) = int (length (bs @ [b]))"
    using st(2) [OF p(3)] by (simp_all add: completeAll_snoc ih(3))
  moreover have "indexAdvances L m (bs @ [b]) = length (bs @ [b])"
    using st(2) [OF p(3)] by (simp add: indexAdvances_snoc ih(4))
  ultimately show ?case by blast
qed

lemma review_final:
  assumes "response m = Some r" "currentAction m = 0" "view m = stateReview"
    and "length as = length (ProposedActions r)" "as \<noteq> []"
  shows "response (completeAll L m as) = Some (r\<lparr>ProposedActions := as\<rparr>)
       \<and> view (completeAll L m as) = stateDone
       \<and> currentAction (completeAll L m as) = int (length as) - 1
       \<and> indexAdvances L m as = length as - 1"
proof -
  from assms(5) obtain bs b where as: "as = bs @ [b]"
    by (cases as rule: rev_cases) simp_all
  have lb: "length bs < length (ProposedActions r)" "Suc (length bs) = length (ProposedActions r)"
    using assms(4) by (simp_all add: as)
  let ?mk = "completeAll L m bs"
  let ?rk = "r\<lparr>ProposedActions := bs @ drop (length bs) (ProposedActions r)\<rparr>"
  from review_prefix [OF assms(1-3) lb(1), of L]
  have ih: "response ?mk = Some ?rk" "view ?mk = stateReview"
    "currentAction ?mk = int (length bs)" "indexAdvances L m bs = length bs"
    by simp_all
  have p: "0 \<le> currentAction ?mk" "currentAction ?mk < int (length (ProposedActions ?rk))"
    "\<not> currentAction ?mk + 1 < int (length (ProposedActions ?rk))"
    using lb by (simp_all add: ih(3))
  note st = completeNext_step [OF ih(1) p(1,2), of L b]
  have d: "drop (length bs) (ProposedActions r) = [ProposedActions r ! length bs]"
    using lb by (metis Cons_nth_drop_Suc drop_all le_refl)
  have upd: "(bs @ drop (length bs) (ProposedActions r))[length bs := b] = bs @ [b]"
    by (simp add: d list_update_length)
  have c: "completeAll L m as = completeNext L b ?mk"
    by (simp add: as completeAll_snoc)
  have i: "indexAdvances L m as = indexAdvances L m bs +
     (if currentAction (completeNext L b ?mk) = currentAction ?mk + 1 then 1 else 0)"
    by (simp add: as indexAdvances_snoc)
  have "response (completeAll L m as) = Some (r\<lparr>ProposedActions := as\<rparr>)"
    using st(1) upd by (simp add: c ih(3)) (simp add: as)
  moreover have "view (completeAll L m as) = stateDone"
    "currentAction (completeAll L m as) = int (length as) - 1"
    using st(3) [OF p(3)] by (simp_all add: c ih(3)) (simp add: as)
  moreover have "indexAdvances L m as = length as - 1"
    using st(3) [OF p(3)] by (simp add: i ih(3,4)) (simp add: as)
  ultimately show ?thesis by blast
qed

text \<open>
  Claim C1, as amended. Let the Submission Result have \<open>N \<ge> 1\<close> proposed actions, let
  the engine be on the Review screen at action index 0, and let the gateway return the
  actions \<open>as\<close>, one per completion. After \<open>k \<le> N\<close> completions the first \<open>k\<close> records
  are overwritten by the returned actions and the others are untouched; for \<open>k < N\<close> the
  screen is Review and the action index is \<open>k\<close>; the screen is Done exactly when
  \<open>k = N\<close>. The last completion does not move the index: at the end it is \<open>N - 1\<close>, and
  in total the index has advanced \<open>N - 1\<close> times.
\<close>

theorem review_done_after_last_completion:
  assumes "response m = Some r" and "currentAction m = 0" and "view m = stateReview"
    and "length as = length (ProposedActions r)" and "as \<noteq> []" and "k \<le> length as"
  shows "response (completeAll L m (take k as)) =
           Some (r\<lparr>ProposedActions := take k as @ drop k (ProposedActions r)\<rparr>)
       \<and> (k < length as \<longrightarrow>
            view (completeAll L m (take k as)) = stateReview
            \<and> currentAction (completeAll L m (take k as)) = int k)
       \<and> (view (completeAll L m (take k as)) = stateDone \<longleftrightarrow> k = length as)
       \<and> currentAction (completeAll L m as) = int (length as) - 1
       \<and> indexAdvances L m as = length as - 1"
proof (cases "k < length as")
  case True
  then have l: "length (take k as) < length (ProposedActions r)" "length (take k as) = k"
    using assms(4) by simp_all
  from review_prefix [OF assms(1-3) l(1), of L] review_final [OF assms(1-5), of L] True
  show ?thesis by (simp add: l(2))
next
  case False
  then have k: "k = length as" using assms(6) by simp
  from review_final [OF assms(1-5), of L] show ?thesis
    by (simp add: k assms(4))
qed

text \<open>
  The count of \<open>N\<close> advances of the specification fails already for one proposed action:
  its completion leads to Done with the index still 0.
\<close>

theorem index_advances_counterexample:
  "response lastReviewModel = Some oneActionResponse
   \<and> length (ProposedActions oneActionResponse) = 1
   \<and> currentAction lastReviewModel = 0 \<and> view lastReviewModel = stateReview
   \<and> view (completeAll plainLib lastReviewModel [approvedAction]) = stateDone
   \<and> currentAction (completeAll plainLib lastReviewModel [approvedAction]) = 0
   \<and> indexAdvances plainLib lastReviewModel [approvedAction] \<noteq> 1"
proof -
  have f: "response lastReviewModel = Some oneActionResponse"
    "currentAction lastReviewModel = 0" "view lastReviewModel = stateReview"
    by (simp_all add: lastReviewModel_def startModel_fields)
  have a: "actionAt lastReviewModel 0 \<noteq> None" "actionAt lastReviewModel 1 = None"
    by (simp_all add: actionAt_def f oneActionResponse_def)
  have u: "completeNext plainLib approvedAction lastReviewModel =
        setView plainLib stateDone (successStyle plainLib ''All actions reviewed.'')
          (storeAction 0 approvedAction lastReviewModel)"
    using Update_actionUpdated [of lastReviewModel 0 plainLib approvedAction] a
    by (simp add: completeNext_def f)
  show ?thesis
    by (simp add: f u setView_fields storeAction_fields) (simp add: oneActionResponse_def)
qed

theorem review_done_after_last_completion_witness:
  "response reviewModel = Some twoActionResponse \<and> currentAction reviewModel = 0
   \<and> view reviewModel = stateReview
   \<and> length [approvedAction, eventAction] = length (ProposedActions twoActionResponse)
   \<and> [approvedAction, eventAction] \<noteq> [] \<and> (1::nat) \<le> length [approvedAction, eventAction]
   \<and> view (completeAll plainLib reviewModel [approvedAction]) = stateReview
   \<and> currentAction (completeAll plainLib reviewModel [approvedAction]) = 1
   \<and> response (completeAll plainLib reviewModel [approvedAction]) =
        Some (twoActionResponse\<lparr>ProposedActions := [approvedAction, eventAction]\<rparr>)
   \<and> view (completeAll plainLib reviewModel [approvedAction, eventAction]) = stateDone
   \<and> currentAction (completeAll plainLib reviewModel [approvedAction, eventAction]) = 1
   \<and> indexAdvances plainLib reviewModel [approvedAction, eventAction] = 1"
proof -
  have f: "response reviewModel = Some twoActionResponse" "currentAction reviewModel = 0"
    "view reviewModel = stateReview"
    by (simp_all add: reviewModel_def startModel_fields)
  have l: "length [approvedAction, eventAction] = length (ProposedActions twoActionResponse)"
    "[approvedAction, eventAction] \<noteq> []"
    by (simp_all add: twoActionResponse_def)
  have k1: "(1::nat) \<le> length [approvedAction, eventAction]"
    and k2: "(2::nat) \<le> length [approvedAction, eventAction]" by simp_all
  from review_done_after_last_completion [OF f l k1, of plainLib]
    review_done_after_last_completion [OF f l k2, of plainLib] f l
  show ?thesis by (simp add: twoActionResponse_def)
qed

section \<open>The classification block\<close>

lemma classificationLines_map:
  "classificationLines c ps acc keys = acc @ map (classificationLine c ps) keys"
  by (induction keys arbitrary: acc) simp_all

lemma sortedKeys:
  "sorted (slicesSort (mapsKeys ps))" "distinct (slicesSort (mapsKeys ps))"
  "set (slicesSort (mapsKeys ps)) = dom (map_of ps)"
  by (simp_all add: slicesSort_def mapsKeys_def dom_map_of_conv_image_fst)

lemma classificationLine_format:
  "classificationLine c ps key =
     ''- '' @ key @ '': '' @ fmtPercent (probabilityOf ps key)
     @ (if \<exists>d. Decisions c = Some d \<and> map_of d key = Some True then '' (selected)'' else [])"
  by (auto simp add: classificationLine_def decisionOf_def Let_def split: option.splits)

lemma fmtPercent_one_decimal:
  "mul100 p = Finite s m e \<Longrightarrow>
   fmtPercent p = (if s then ''-'' else []) @ showNat (nat (tenths m e div 10)) @ ''.''
                  @ [digitChar (nat (tenths m e mod 10))] @ ''%''"
  by (simp add: fmtPercent_def Let_def)

lemma example_percent:
  "fmtPercent float_0_82 = ''82.0%''" "fmtPercent float_0_25 = ''25.0%''"
  unfolding float_0_82_def float_0_25_def by code_simp+

lemma urgent_render:
  "renderClassification urgentClassification = ''- urgent: 82.0% (selected)''"
  by (simp add: renderClassification_def urgentClassification_def mapsKeys_def slicesSort_def
        classificationLine_def probabilityOf_def decisionOf_def example_percent)

text \<open>
  Claim C8. For a classification without probabilities (absent or empty map) the block is
  the single line \<open>No classification data.\<close>. Otherwise the block is the lines, joined by
  newlines, of the categories of the probability map, each once, sorted lexicographically
  by name; the line of a category is \<open>- name: \<close> followed by its percentage and, exactly
  when the decision map maps the name to true, by \<open> (selected)\<close>; the percentage of a
  probability whose hundredfold is finite is an optional sign, the integer digits, a
  point, one decimal digit and the percent sign. For \<open>{"urgent": 0.82}\<close> with decisions
  \<open>{"urgent": true}\<close> the block is the line \<open>- urgent: 82.0% (selected)\<close>.
\<close>

theorem classification_block:
  "(Probabilities c = None \<or> Probabilities c = Some [] \<longrightarrow>
      renderClassification c = ''No classification data.'')
   \<and> (\<forall>ps. Probabilities c = Some ps \<and> ps \<noteq> [] \<longrightarrow>
        (\<exists>keys. sorted keys \<and> distinct keys \<and> set keys = dom (map_of ps)
           \<and> renderClassification c =
               Join (map (\<lambda>key. ''- '' @ key @ '': '' @ fmtPercent (probabilityOf ps key)
                          @ (if \<exists>d. Decisions c = Some d \<and> map_of d key = Some True
                             then '' (selected)'' else [])) keys) [newline]
           \<and> (\<forall>key \<in> set keys. map_of ps key = Some (probabilityOf ps key)
                 \<and> (\<forall>s m e. mul100 (probabilityOf ps key) = Finite s m e \<longrightarrow>
                       fmtPercent (probabilityOf ps key) =
                         (if s then ''-'' else []) @ showNat (nat (tenths m e div 10)) @ ''.''
                         @ [digitChar (nat (tenths m e mod 10))] @ ''%''))))
   \<and> renderClassification urgentClassification = ''- urgent: 82.0% (selected)''"
proof -
  have e: "renderClassification c = ''No classification data.''"
    if "Probabilities c = None \<or> Probabilities c = Some []"
    using that by (auto simp add: renderClassification_def mapsKeys_def)
  have l: "\<exists>keys. sorted keys \<and> distinct keys \<and> set keys = dom (map_of ps)
           \<and> renderClassification c =
               Join (map (\<lambda>key. ''- '' @ key @ '': '' @ fmtPercent (probabilityOf ps key)
                          @ (if \<exists>d. Decisions c = Some d \<and> map_of d key = Some True
                             then '' (selected)'' else [])) keys) [newline]
           \<and> (\<forall>key \<in> set keys. map_of ps key = Some (probabilityOf ps key)
                 \<and> (\<forall>s m e. mul100 (probabilityOf ps key) = Finite s m e \<longrightarrow>
                       fmtPercent (probabilityOf ps key) =
                         (if s then ''-'' else []) @ showNat (nat (tenths m e div 10)) @ ''.''
                         @ [digitChar (nat (tenths m e mod 10))] @ ''%''))"
    if p: "Probabilities c = Some ps" "ps \<noteq> []" for ps
  proof -
    let ?keys = "slicesSort (mapsKeys ps)"
    have "set (mapsKeys ps) \<noteq> {}"
      using p(2) by (simp add: mapsKeys_def)
    then have ne: "length (mapsKeys ps) \<noteq> 0"
      by auto
    have r: "renderClassification c = Join (map (classificationLine c ps) ?keys) [newline]"
      using p(1) ne by (simp add: renderClassification_def classificationLines_map)
    have m: "map_of ps key = Some (probabilityOf ps key)" if "key \<in> set ?keys" for key
      using that by (auto simp add: sortedKeys probabilityOf_def)
    have f: "classificationLine c ps =
               (\<lambda>key. ''- '' @ key @ '': '' @ fmtPercent (probabilityOf ps key)
                          @ (if \<exists>d. Decisions c = Some d \<and> map_of d key = Some True
                             then '' (selected)'' else []))"
      by (rule ext) (rule classificationLine_format)
    show ?thesis
    proof (intro exI [of _ ?keys] conjI ballI allI impI)
      show "renderClassification c =
               Join (map (\<lambda>key. ''- '' @ key @ '': '' @ fmtPercent (probabilityOf ps key)
                          @ (if \<exists>d. Decisions c = Some d \<and> map_of d key = Some True
                             then '' (selected)'' else [])) ?keys) [newline]"
        using r by (simp only: f)
    qed (simp_all only: sortedKeys m fmtPercent_one_decimal)
  qed
  from e l urgent_render show ?thesis by blast
qed

theorem classification_block_witness:
  "Probabilities emptyClassification = Some []
   \<and> renderClassification emptyClassification = ''No classification data.''
   \<and> Probabilities mixedClassification = Some [(''urgent'', float_0_82), (''draft'', float_0_25)]
   \<and> (\<exists>keys. sorted keys \<and> distinct keys \<and> set keys = {''urgent'', ''draft''}
         \<and> renderClassification mixedClassification =
             Join (map (\<lambda>key. ''- '' @ key @ '': ''
                          @ fmtPercent (probabilityOf [(''urgent'', float_0_82), (''draft'', float_0_25)] key)
                          @ (if \<exists>d. Decisions mixedClassification = Some d \<and> map_of d key = Some True
                             then '' (selected)'' else [])) keys) [newline])
   \<and> renderClassification mixedClassification =
        ''- draft: 25.0%'' @ [newline] @ ''- urgent: 82.0% (selected)''"
proof -
  have e: "Probabilities emptyClassification = Some []"
    by (simp add: emptyClassification_def)
  have p: "Probabilities mixedClassification = Some [(''urgent'', float_0_82), (''draft'', float_0_25)]"
    "[(''urgent'', float_0_82), (''draft'', float_0_25)] \<noteq> []"
    by (simp_all add: mixedClassification_def)
  have d: "dom (map_of [(''urgent'', float_0_82), (''draft'', float_0_25)]) = {''urgent'', ''draft''}"
    by auto
  have r: "renderClassification mixedClassification =
        ''- draft: 25.0%'' @ [newline] @ ''- urgent: 82.0% (selected)''"
    by (simp add: renderClassification_def mixedClassification_def mapsKeys_def slicesSort_def
        classificationLine_def probabilityOf_def decisionOf_def example_percent)
  from classification_block [of emptyClassification] e
  have 1: "renderClassification emptyClassification = ''No classification data.''"
    by blast
  from classification_block [of mixedClassification] p
  have "\<exists>keys. sorted keys \<and> distinct keys
         \<and> set keys = dom (map_of [(''urgent'', float_0_82), (''draft'', float_0_25)])
         \<and> renderClassification mixedClassification =
             Join (map (\<lambda>key. ''- '' @ key @ '': ''
                          @ fmtPercent (probabilityOf [(''urgent'', float_0_82), (''draft'', float_0_25)] key)
                          @ (if \<exists>d. Decisions mixedClassification = Some d \<and> map_of d key = Some True
                             then '' (selected)'' else [])) keys) [newline]"
    by blast
  then have 2: "\<exists>keys. sorted keys \<and> distinct keys \<and> set keys = {''urgent'', ''draft''}
         \<and> renderClassification mixedClassification =
             Join (map (\<lambda>key. ''- '' @ key @ '': ''
                          @ fmtPercent (probabilityOf [(''urgent'', float_0_82), (''draft'', float_0_25)] key)
                          @ (if \<exists>d. Decisions mixedClassification = Some d \<and> map_of d key = Some True
                             then '' (selected)'' else [])) keys) [newline]"
    unfolding d .
  from e 1 p(1) 2 r show ?thesis by blast
qed

section \<open>Saving the payload editor\<close>

lemma Unmarshal_examples:
  "Unmarshal ''null'' = Inr None"
  "Unmarshal ''{invalid'' = Inl SyntaxError"
  "Unmarshal ''[1, 2]'' = Inl UnmarshalTypeError"
  "Unmarshal ''42'' = Inl UnmarshalTypeError"
  "Unmarshal objectText = Inr (Some [(''k'', JNumber (Finite False 1 0))])"
  unfolding Unmarshal_def objectText_def by code_simp+

lemma TrimSpace_examples:
  "TrimSpace ''null'' = ''null''"
  "TrimSpace ''{invalid'' = ''{invalid''"
  "TrimSpace objectText = objectText"
  unfolding objectText_def by code_simp+

lemma Unmarshal_empty: "Unmarshal [] = Inl SyntaxError"
  by (simp add: Unmarshal_def parseJSON_def skipSpace_def)

lemma editing_dispatch:
  "view m = stateEditingPayload \<Longrightarrow> KeyType k = KeyCtrlS \<Longrightarrow>
   handleKeyMsg L k m = handlePayloadKey L k m"
  by (simp add: handleKeyMsg_def viewUsesViewport_def)

text \<open>
  The save key on the EditingPayload screen: a text that is empty or fails to decode keeps
  the screen, sets a non-empty inline error, leaves the pending edit alone and issues no
  gateway command; a text that decodes is stored as the pending edit, the inline error is
  cleared and the screen becomes PromptGeneral.
\<close>

lemma save_rejected:
  assumes "view m = stateEditingPayload" "KeyType k = KeyCtrlS"
    and "TrimSpace (edValue (fst (textareaUpdate L k (editor m)))) = raw"
    and "raw = [] \<or> Unmarshal raw = Inl e"
  shows "view (fst (handleKeyMsg L k m)) = stateEditingPayload"
    and "editorErr (fst (handleKeyMsg L k m)) \<noteq> []"
    and "pending (fst (handleKeyMsg L k m)) = pending m"
    and "issued (snd (handleKeyMsg L k m)) = []"
  using assms
  by (auto simp add: editing_dispatch handlePayloadKey_def Let_def issued_def Unmarshal_empty
        split: prod.splits sum.splits option.splits)

lemma save_accepted:
  assumes "view m = stateEditingPayload" "KeyType k = KeyCtrlS"
    and "Unmarshal (TrimSpace (edValue (fst (textareaUpdate L k (editor m))))) = Inr parsed"
  shows "view (fst (handleKeyMsg L k m)) = statePromptGeneral"
    and "editorErr (fst (handleKeyMsg L k m)) = []"
    and "pending (fst (handleKeyMsg L k m)) = parsed"
    and "issued (snd (handleKeyMsg L k m)) = []"
    and "currentAction (fst (handleKeyMsg L k m)) = currentAction m"
    and "response (fst (handleKeyMsg L k m)) = response m"
  using assms
  by (auto simp add: editing_dispatch handlePayloadKey_def Let_def issued_def Unmarshal_empty
        setView_fields split: prod.splits sum.splits option.splits)

lemma prompt_modify:
  assumes "view m = statePromptGeneral"
  shows "KeyType k = KeyRunes \<Longrightarrow> ToLower (Runes k) = ''y'' \<Longrightarrow>
           issued (snd (handleKeyMsg L k m)) =
             [modifyActionCmd (currentAction m) (currentActionID m) (pending m) True]"
    and "(KeyType k = KeyRunes \<and> ToLower (Runes k) = ''n'') \<or> KeyType k = KeyEnter \<Longrightarrow>
           issued (snd (handleKeyMsg L k m)) =
             [modifyActionCmd (currentAction m) (currentActionID m) (pending m) False]"
  using assms
  by (auto simp add: handleKeyMsg_def noScroll handlePromptKey_def submitModifiedAction_def
        beginActionUpdate_def issued_def Let_def)

lemma currentActionID_cong:
  "response m' = response m \<Longrightarrow> currentAction m' = currentAction m \<Longrightarrow>
   currentActionID m' = currentActionID m"
  by (simp add: currentActionID_def currentActionRef_def actionAt_def)

section \<open>Sending the edited payload\<close>

text \<open>
  Claim C4. Let the save key be pressed on the EditingPayload screen with a text that
  decodes to a JSON object \<open>obj\<close>. Then the screen is PromptGeneral with \<open>obj\<close> as the
  pending edit and no command issued; from there the apply-globally key \<open>y\<close> issues
  exactly one gateway command, the modify command for the current action carrying \<open>obj\<close>
  and apply-to-general true; the per-recipient key \<open>n\<close> and the confirm key issue exactly
  one modify command carrying \<open>obj\<close> and apply-to-general false; and the request of every
  modify command goes to \<open>/action/modify\<close> with \<open>record_preferences\<close> true.
\<close>

theorem modify_after_valid_save:
  assumes "view m = stateEditingPayload" and "KeyType ks = KeyCtrlS"
    and "Unmarshal (TrimSpace (edValue (fst (textareaUpdate L ks (editor m))))) = Inr (Some obj)"
  shows "view (fst (handleKeyMsg L ks m)) = statePromptGeneral
       \<and> pending (fst (handleKeyMsg L ks m)) = Some obj
       \<and> issued (snd (handleKeyMsg L ks m)) = []
       \<and> (\<forall>k. KeyType k = KeyRunes \<and> ToLower (Runes k) = ''y'' \<longrightarrow>
              issued (snd (handleKeyMsg L k (fst (handleKeyMsg L ks m)))) =
                [modifyActionCmd (currentAction m) (currentActionID m) (Some obj) True])
       \<and> (\<forall>k. (KeyType k = KeyRunes \<and> ToLower (Runes k) = ''n'') \<or> KeyType k = KeyEnter \<longrightarrow>
              issued (snd (handleKeyMsg L k (fst (handleKeyMsg L ks m)))) =
                [modifyActionCmd (currentAction m) (currentActionID m) (Some obj) False])
       \<and> (\<forall>i a p g. requestOf (modifyActionCmd i a p g) = Some (ModifyAction a p g)
              \<and> path (ModifyAction a p g) = ''/action/modify''
              \<and> body (ModifyAction a p g) =
                  modifyBody \<lparr>action_id = a, payload = p, record_preferences = True,
                              apply_to_general_preferences = g\<rparr>)"
proof -
  let ?m1 = "fst (handleKeyMsg L ks m)"
  note s = save_accepted [OF assms]
  have id: "currentActionID ?m1 = currentActionID m"
    using s(5,6) by (rule currentActionID_cong [rotated])
  from prompt_modify [OF s(1), of _ L] s id show ?thesis
    by (simp add: ModifyAction_def)
qed

theorem modify_after_valid_save_witness:
  "view (editingModel objectText) = stateEditingPayload \<and> KeyType saveKey = KeyCtrlS
   \<and> Unmarshal (TrimSpace (edValue (fst (textareaUpdate plainLib saveKey
                                             (editor (editingModel objectText))))))
       = Inr (Some [(''k'', JNumber (Finite False 1 0))])
   \<and> view (fst (handleKeyMsg plainLib saveKey (editingModel objectText))) = statePromptGeneral
   \<and> issued (snd (handleKeyMsg plainLib (runeKey ''y'')
                    (fst (handleKeyMsg plainLib saveKey (editingModel objectText))))) =
        [modifyActionCmd 0 ''act-1'' (Some [(''k'', JNumber (Finite False 1 0))]) True]
   \<and> issued (snd (handleKeyMsg plainLib enterKey
                    (fst (handleKeyMsg plainLib saveKey (editingModel objectText))))) =
        [modifyActionCmd 0 ''act-1'' (Some [(''k'', JNumber (Finite False 1 0))]) False]
   \<and> requestOf (modifyActionCmd 0 ''act-1'' (Some [(''k'', JNumber (Finite False 1 0))]) True) =
        Some \<lparr>path = ''/action/modify'',
              body = modifyBody \<lparr>action_id = ''act-1'',
                                  payload = Some [(''k'', JNumber (Finite False 1 0))],
                                  record_preferences = True,
                                  apply_to_general_preferences = True\<rparr>\<rparr>"
proof -
  have v: "view (editingModel objectText) = stateEditingPayload"
    by (simp add: editingModel_def)
  have k: "KeyType saveKey = KeyCtrlS"
    by (simp add: saveKey_def)
  have u: "Unmarshal (TrimSpace (edValue (fst (textareaUpdate plainLib saveKey
                                             (editor (editingModel objectText))))))
       = Inr (Some [(''k'', JNumber (Finite False 1 0))])"
    by (simp add: editingModel_def plainLib_def TrimSpace_examples Unmarshal_examples
          del: One_nat_def)
  have c: "currentAction (editingModel objectText) = 0"
    "currentActionID (editingModel objectText) = ''act-1''"
    by (simp_all add: editingModel_def reviewModel_def startModel_fields currentActionID_def
          currentActionRef_def actionAt_def twoActionResponse_def draftAction_def zeroAction_def)
  have y: "KeyType (runeKey ''y'') = KeyRunes \<and> ToLower (Runes (runeKey ''y'')) = ''y''"
    by (simp add: runeKey_def ToLower_examples)
  have e: "(KeyType enterKey = KeyRunes \<and> ToLower (Runes enterKey) = ''n'') \<or> KeyType enterKey = KeyEnter"
    by (simp add: enterKey_def)
  note t = modify_after_valid_save [OF v k u]
  from t y have 1: "issued (snd (handleKeyMsg plainLib (runeKey ''y'')
                    (fst (handleKeyMsg plainLib saveKey (editingModel objectText))))) =
        [modifyActionCmd (currentAction (editingModel objectText))
           (currentActionID (editingModel objectText)) (Some [(''k'', JNumber (Finite False 1 0))]) True]"
    by blast
  from t e have 2: "issued (snd (handleKeyMsg plainLib enterKey
                    (fst (handleKeyMsg plainLib saveKey (editingModel objectText))))) =
        [modifyActionCmd (currentAction (editingModel objectText))
           (currentActionID (editingModel objectText)) (Some [(''k'', JNumber (Finite False 1 0))]) False]"
    by blast
  from t have 3: "view (fst (handleKeyMsg plainLib saveKey (editingModel objectText))) = statePromptGeneral"
    by blast
  from t have 4: "requestOf (modifyActionCmd 0 ''act-1'' (Some [(''k'', JNumber (Finite False 1 0))]) True) =
        Some (ModifyAction ''act-1'' (Some [(''k'', JNumber (Finite False 1 0))]) True)"
    by blast
  from v k u 3 1 2 4 show ?thesis
    by (simp add: c ModifyAction_def)
qed

section \<open>The text null in the payload editor\<close>

text \<open>
  Claim C2, at the input where the engine departs from it. The text \<open>null\<close> is a JSON
  scalar, not an object, yet decoding it into a map succeeds with the nil map. So the
  save key on the EditingPayload screen, with an editor text that trims to \<open>null\<close>,
  leaves the editor: the screen becomes PromptGeneral, the inline error is empty, the
  pending edit is the nil map, and the confirm key then issues a modify command whose
  payload is nil.
\<close>

theorem save_null_is_accepted:
  assumes "view m = stateEditingPayload" and "KeyType ks = KeyCtrlS"
    and "TrimSpace (edValue (fst (textareaUpdate L ks (editor m)))) = ''null''"
  shows "view (fst (handleKeyMsg L ks m)) = statePromptGeneral
       \<and> editorErr (fst (handleKeyMsg L ks m)) = []
       \<and> pending (fst (handleKeyMsg L ks m)) = None
       \<and> (\<forall>k. KeyType k = KeyEnter \<longrightarrow>
              issued (snd (handleKeyMsg L k (fst (handleKeyMsg L ks m)))) =
                [modifyActionCmd (currentAction m) (currentActionID m) None False])"
proof -
  let ?m1 = "fst (handleKeyMsg L ks m)"
  have u: "Unmarshal (TrimSpace (edValue (fst (textareaUpdate L ks (editor m))))) = Inr None"
    by (simp only: assms(3) Unmarshal_examples)
  note s = save_accepted [OF assms(1,2) u]
  have id: "currentActionID ?m1 = currentActionID m"
    using s(5,6) by (rule currentActionID_cong [rotated])
  from prompt_modify(2) [OF s(1), of _ L] s id show ?thesis
    by simp
qed

theorem save_null_is_accepted_witness:
  "view (editingModel ''null'') = stateEditingPayload \<and> KeyType saveKey = KeyCtrlS
   \<and> TrimSpace (edValue (fst (textareaUpdate plainLib saveKey (editor (editingModel ''null''))))) = ''null''
   \<and> view (fst (handleKeyMsg plainLib saveKey (editingModel ''null''))) = statePromptGeneral
   \<and> editorErr (fst (handleKeyMsg plainLib saveKey (editingModel ''null''))) = []
   \<and> pending (fst (handleKeyMsg plainLib saveKey (editingModel ''null''))) = None"
proof -
  have v: "view (editingModel ''null'') = stateEditingPayload"
    by (simp add: editingModel_def)
  have k: "KeyType saveKey = KeyCtrlS"
    by (simp add: saveKey_def)
  have t: "TrimSpace (edValue (fst (textareaUpdate plainLib saveKey (editor (editingModel ''null''))))) = ''null''"
    by (simp add: editingModel_def plainLib_def TrimSpace_examples)
  from save_null_is_accepted [OF v k t] v k t show ?thesis
    by blast
qed

text \<open>The malformed text \<open>{invalid\<close> is rejected as the claim says.\<close>

lemma save_invalid_example:
  "view (fst (handleKeyMsg plainLib saveKey (editingModel ''{invalid''))) = stateEditingPayload
   \<and> editorErr (fst (handleKeyMsg plainLib saveKey (editingModel ''{invalid''))) \<noteq> []
   \<and> pending (fst (handleKeyMsg plainLib saveKey (editingModel ''{invalid'')))
       = pending (editingModel ''{invalid'')
   \<and> issued (snd (handleKeyMsg plainLib saveKey (editingModel ''{invalid''))) = []"
proof -
  have v: "view (editingModel ''{invalid'') = stateEditingPayload"
    by (simp add: editingModel_def)
  have k: "KeyType saveKey = KeyCtrlS"
    by (simp add: saveKey_def)
  have t: "TrimSpace (edValue (fst (textareaUpdate plainLib saveKey (editor (editingModel ''{invalid''))))) = ''{invalid''"
    by (simp add: editingModel_def plainLib_def TrimSpace_examples)
  have u: "''{invalid'' = [] \<or> Unmarshal ''{invalid'' = Inl SyntaxError"
    by (simp add: Unmarshal_examples)
  from save_rejected [OF v k t u] show ?thesis by blast
qed

end
